theory Spec2Isabelle
  imports Main
begin

section \<open>Python values stored in a profile\<close>

text \<open>
  A profile is a Python dict read from and written to a JSON file. Its values are the
  JSON scalars the bot writes: integers, strings, booleans (and \<open>None\<close>, which a
  hand-edited file may hold). Python integers are unbounded, so they are \<open>int\<close>.
\<close>

datatype pyval = PInt int | PStr string | PBool bool | PNone

datatype py_error =
    KeyError string
  | TypeError
  | AttributeError

type_synonym user = "string \<rightharpoonup> pyval"

text \<open>\<open>d[key]\<close>: raises KeyError when the key is absent.\<close>

definition getitem :: "user \<Rightarrow> string \<Rightarrow> py_error + pyval" where
  "getitem d k = (case d k of None \<Rightarrow> Inl (KeyError k) | Some v \<Rightarrow> Inr v)"

text \<open>Truth value of a Python object in \<open>if x:\<close>.\<close>

fun truthy :: "pyval \<Rightarrow> bool" where
  "truthy (PBool b) = b"
| "truthy (PInt n) = (n \<noteq> 0)"
| "truthy (PStr s) = (s \<noteq> [])"
| "truthy PNone = False"

text \<open>
  Python's \<open>==\<close> on these values: \<open>bool\<close> is a subclass of \<open>int\<close>, so
  \<open>True == 1\<close> and \<open>False == 0\<close>; values of different kinds are unequal.
\<close>

fun py_num :: "pyval \<Rightarrow> int option" where
  "py_num (PInt n) = Some n"
| "py_num (PBool b) = Some (if b then 1 else 0)"
| "py_num (PStr s) = None"
| "py_num PNone = None"

definition py_eq :: "pyval \<Rightarrow> pyval \<Rightarrow> bool" where
  "py_eq a b =
     (case (py_num a, py_num b) of
        (Some x, Some y) \<Rightarrow> x = y
      | (None, None) \<Rightarrow> a = b
      | _ \<Rightarrow> False)"

text \<open>\<open>x += 1\<close> and \<open>x <= n\<close> for an integer \<open>n\<close>; a string or None raises TypeError.\<close>

fun py_add_one :: "pyval \<Rightarrow> py_error + pyval" where
  "py_add_one (PInt n) = Inr (PInt (n + 1))"
| "py_add_one (PBool b) = Inr (PInt ((if b then 1 else 0) + 1))"
| "py_add_one (PStr s) = Inl TypeError"
| "py_add_one PNone = Inl TypeError"

fun py_le_int :: "pyval \<Rightarrow> int \<Rightarrow> py_error + bool" where
  "py_le_int (PInt n) m = Inr (n \<le> m)"
| "py_le_int (PBool b) m = Inr ((if b then 1 else 0) \<le> m)"
| "py_le_int (PStr s) m = Inl TypeError"
| "py_le_int PNone m = Inl TypeError"

section \<open>Strings\<close>

text \<open>Decimal rendering of an integer, as \<open>str(n)\<close> and \<open>"{0}".format(n)\<close> give it.\<close>

definition digit_char :: "nat \<Rightarrow> char" where
  "digit_char d = ''0123456789'' ! d"

function str_nat :: "nat \<Rightarrow> string" where
  "str_nat n = (if n < 10 then [digit_char n] else str_nat (n div 10) @ [digit_char (n mod 10)])"
  by pat_completeness auto
termination
  by (relation "measure (\<lambda>n. n)") auto

declare str_nat.simps [simp del]

definition str_int :: "int \<Rightarrow> string" where
  "str_int i = (if i < 0 then CHR ''-'' # str_nat (nat (- i)) else str_nat (nat i))"

fun py_str :: "pyval \<Rightarrow> string" where
  "py_str (PInt n) = str_int n"
| "py_str (PStr s) = s"
| "py_str (PBool b) = (if b then ''True'' else ''False'')"
| "py_str PNone = ''None''"

text \<open>
  \<open>s.replace(old, new)\<close>: scans from the left and replaces every non-overlapping
  occurrence of \<open>old\<close>. For an empty \<open>old\<close> Python puts \<open>new\<close> before every
  character and at the end.
\<close>

function replace_nonempty :: "string \<Rightarrow> string \<Rightarrow> string \<Rightarrow> string" where
  "replace_nonempty old new [] = []"
| "replace_nonempty old new (c # cs) =
     (if old \<noteq> [] \<and> take (length old) (c # cs) = old
      then new @ replace_nonempty old new (drop (length old) (c # cs))
      else c # replace_nonempty old new cs)"
  by pat_completeness auto
termination
  by (relation "measure (\<lambda>(old, new, s). length s)") (auto simp: neq_Nil_conv)

definition replace :: "string \<Rightarrow> string \<Rightarrow> string \<Rightarrow> string" where
  "replace s old new =
     (if old = [] then new @ concat (map (\<lambda>c. c # new) s) else replace_nonempty old new s)"

text \<open>
  A \<open>char\<close> stands for a code point below 256. \<open>s.strip()\<close> drops leading and
  trailing whitespace; for these code points \<open>str.isspace\<close> holds of tab, line feed,
  vertical tab, form feed, carriage return, the separators 0x1c to 0x1f, the space, the
  next-line control 0x85 and the no-break space 0xa0.
\<close>

definition is_space :: "char \<Rightarrow> bool" where
  "is_space c = (of_char c \<in> {9, 10, 11, 12, 13, 28, 29, 30, 31, 32, 133, 160 :: nat})"

definition strip :: "string \<Rightarrow> string" where
  "strip s = rev (dropWhile is_space (rev (dropWhile is_space s)))"

text \<open>
  \<open>py_int s\<close> is \<open>int(str(s).strip())\<close>, as the handlers write it. What \<open>int\<close> itself
  skips at both ends (tab to carriage return, the space, 0x85 and 0xa0) is among what
  \<open>str.strip\<close> has removed, so the stripped text must be an optional sign, then decimal
  digits, where a single underscore may stand between two digits (the only decimal digits
  below 256 are the ASCII ones). Anything else raises ValueError; the handlers only use
  \<open>str(e)\<close> of that exception, its message, so the failure is returned as that message.
  It quotes the argument of \<open>int\<close>, the stripped text. The bound that recent interpreters
  put on the digits of a conversion (4300 unless configured) lies beyond the 4096
  characters of a Telegram message and is left out.
\<close>

definition is_digit :: "char \<Rightarrow> bool" where
  "is_digit c = (c \<in> set ''0123456789'')"

definition digit_val :: "char \<Rightarrow> nat" where
  "digit_val c = of_char c - 48"

fun parse_digits :: "nat \<Rightarrow> string \<Rightarrow> nat option" where
  "parse_digits acc [] = Some acc"
| "parse_digits acc [c] = (if is_digit c then Some (10 * acc + digit_val c) else None)"
| "parse_digits acc (c # d # ds) =
     (if is_digit c then parse_digits (10 * acc + digit_val c) (d # ds)
      else if c = CHR ''_'' \<and> is_digit d then parse_digits acc (d # ds)
      else None)"

definition parse_nat :: "string \<Rightarrow> nat option" where
  "parse_nat s = (case s of [] \<Rightarrow> None | c # cs \<Rightarrow> if is_digit c then parse_digits 0 s else None)"

text \<open>
  \<open>repr(s)\<close> of a string. The quote is the apostrophe, or the double quote when the
  string holds an apostrophe and no double quote. The quote and the backslash are
  escaped by a backslash; tab, line feed and carriage return are written with their
  letters; every other code point that \<open>str.isprintable\<close> rejects (the controls below
  the space, 0x7f to 0xa0, and the soft hyphen 0xad) is written as a backslash, an x
  and two lower-case hexadecimal digits.
\<close>

definition hex_digit :: "nat \<Rightarrow> char" where
  "hex_digit d = ''0123456789abcdef'' ! d"

definition is_printable :: "char \<Rightarrow> bool" where
  "is_printable c =
     (let n = (of_char c :: nat) in (32 \<le> n \<and> n < 127) \<or> (161 \<le> n \<and> n \<noteq> 173))"

definition repr_char :: "char \<Rightarrow> char \<Rightarrow> string" where
  "repr_char quote c =
     (if c = quote \<or> c = CHR 0x5C then [CHR 0x5C, c]
      else if c = CHR 0x09 then [CHR 0x5C, CHR ''t'']
      else if c = CHR 0x0A then [CHR 0x5C, CHR ''n'']
      else if c = CHR 0x0D then [CHR 0x5C, CHR ''r'']
      else if \<not> is_printable c
      then [CHR 0x5C, CHR ''x'', hex_digit (of_char c div 16), hex_digit (of_char c mod 16)]
      else [c])"

definition py_repr :: "string \<Rightarrow> string" where
  "py_repr s =
     (let quote = (if CHR 0x27 \<in> set s \<and> CHR 0x22 \<notin> set s then CHR 0x22 else CHR 0x27)
      in quote # concat (map (repr_char quote) s) @ [quote])"

text \<open>
  The message of the ValueError that \<open>int\<close> raises: the literal is formatted with
  \<open>%.200R\<close>, its \<open>repr\<close> cut after 200 characters.
\<close>

definition invalid_literal :: "string \<Rightarrow> string" where
  "invalid_literal s = ''invalid literal for int() with base 10: '' @ take 200 (py_repr s)"

definition py_int :: "string \<Rightarrow> string + int" where
  "py_int s =
     (let t = strip s;
          (neg, body) = (case t of
                           c # cs \<Rightarrow> if c = CHR ''-'' then (True, cs)
                                     else if c = CHR ''+'' then (False, cs)
                                     else (False, t)
                         | [] \<Rightarrow> (False, t))
      in case parse_nat body of
           None \<Rightarrow> Inl (invalid_literal t)
         | Some n \<Rightarrow> Inr (if neg then - int n else int n))"

section \<open>UsersHandler\<close>

text \<open>
  Modelled from the spec: \<open>JSONReaderWriter.load_json\<close> and \<open>save_json\<close> are not among
  the sources. The spec treats them as a generic persistence interface with whole-collection
  reads and writes; the docstring of \<open>read_users\<close> says that \<open>load_json\<close> yields None
  when nothing can be read. The store is therefore what \<open>load_json\<close> yields, a list of
  profiles or nothing, and \<open>save_json\<close> makes the list it is given the content read next.
\<close>

type_synonym users_database = "user list option"

definition load_json :: "users_database \<Rightarrow> user list option" where
  "load_json db = db"

definition save_json :: "user list \<Rightarrow> users_database" where
  "save_json users = Some users"

definition read_users :: "users_database \<Rightarrow> user list" where
  "read_users db = (case load_json db of None \<Rightarrow> [] | Some users \<Rightarrow> users)"

text \<open>
  The loop of \<open>get_user_by_id\<close>: the first profile whose id equals the id asked for
  (\<open>uid\<close> here, \<open>id_\<close> in the source). Reading \<open>user["id"]\<close> raises KeyError on a
  profile without an id.
\<close>

fun find_user :: "int \<Rightarrow> user list \<Rightarrow> py_error + user option" where
  "find_user uid [] = Inr None"
| "find_user uid (u # users) =
     (case getitem u ''id'' of
        Inl e \<Rightarrow> Inl e
      | Inr v \<Rightarrow> if py_eq v (PInt uid) then Inr (Some u) else find_user uid users)"

text \<open>
  The loop of \<open>save_user\<close> over \<open>range(len(users))\<close>, from index \<open>i\<close> on:
  the index of the first profile whose id equals \<open>user_data["id"]\<close>, or -1.
\<close>

fun find_index :: "user \<Rightarrow> user list \<Rightarrow> int \<Rightarrow> py_error + int" where
  "find_index user_data [] i = Inr (- 1)"
| "find_index user_data (u # users) i =
     (case getitem u ''id'' of
        Inl e \<Rightarrow> Inl e
      | Inr v \<Rightarrow>
         (case getitem user_data ''id'' of
            Inl e \<Rightarrow> Inl e
          | Inr w \<Rightarrow> if py_eq v w then Inr i else find_index user_data users (i + 1)))"

text \<open>
  \<open>save_user\<close>: None returns at once. Otherwise the store is read, the keys of
  \<open>user_data\<close> are written into the profile found (\<open>++\<close> lets the right map win), or
  \<open>user_data\<close> is appended, and the list is written back. An exception leaves the file
  as it was.
\<close>

definition save_user :: "user option \<Rightarrow> users_database \<Rightarrow> (py_error + unit) \<times> users_database" where
  "save_user user_data db =
     (case user_data of
        None \<Rightarrow> (Inr (), db)
      | Some ud \<Rightarrow>
          (let users = read_users db in
           case find_index ud users 0 of
             Inl e \<Rightarrow> (Inl e, db)
           | Inr user_index \<Rightarrow>
               if user_index \<ge> 0
               then (Inr (), save_json (users[nat user_index := (users ! nat user_index) ++ ud]))
               else (Inr (), save_json (users @ [ud]))))"

definition new_user :: "int \<Rightarrow> user" where
  "new_user uid =
     [''id'' \<mapsto> PInt uid,
      ''username'' \<mapsto> PStr '''',
      ''full_name'' \<mapsto> PStr '''',
      ''admin'' \<mapsto> PBool False,
      ''banned'' \<mapsto> PBool False,
      ''messages_total'' \<mapsto> PInt 0]"

definition create_user :: "int \<Rightarrow> users_database \<Rightarrow> (py_error + user) \<times> users_database" where
  "create_user uid db =
     (let user = new_user uid in
      case save_user (Some user) db of
        (Inl e, db') \<Rightarrow> (Inl e, db')
      | (Inr _, db') \<Rightarrow> (Inr user, db'))"

definition get_user_by_id :: "int \<Rightarrow> users_database \<Rightarrow> (py_error + user) \<times> users_database" where
  "get_user_by_id uid db =
     (case find_user uid (read_users db) of
        Inl e \<Rightarrow> (Inl e, db)
      | Inr (Some user) \<Rightarrow> (Inr user, db)
      | Inr None \<Rightarrow> create_user uid db)"

section \<open>BotHandler: state and sending\<close>

text \<open>
  The configuration is read only. Its message templates are strings and the quota is an
  integer.
\<close>

record config =
  user_max_messages :: int
  confirmation_message :: string
  banned_message :: string
  ban_confirmation_message :: string
  unban_confirmation_message :: string
  resetmessages_confirmation_message :: string
  admin_message :: string
  restart_message_start :: string
  restart_message_done :: string

text \<open>
  What the handlers read of an update: the chat id, and the message with its sender's
  handle (None when the sender has none), full name and text (\<open>msg_text\<close>). \<open>update.message\<close> is None
  for an update that carries no new message (an edited one), which the source tests.
\<close>

record tg_message =
  username :: "string option"
  full_name :: string
  msg_text :: string

record update =
  effective_chat_id :: int
  message :: "tg_message option"

text \<open>
  The state the handlers act on: the user file, the messages handed to the transport
  (chat id and text, oldest first), the attributes \<open>_restart_requested_flag\<close> and
  \<open>_form_message\<close> of BotHandler, whether the event loop was told to stop, and the
  profiles captured by the threads started to send the notice after a restart.
\<close>

record bot =
  database :: users_database
  sent :: "(pyval \<times> string) list"
  restart_requested_flag :: bool
  form_message :: string
  event_loop_stopped :: bool
  restart_threads :: "user list"

text \<open>
  A handler runs on the state and either returns or raises; what it did before raising
  stays done.
\<close>

type_synonym 'a act = "bot \<Rightarrow> (py_error + 'a) \<times> bot"

definition act_return :: "'a \<Rightarrow> 'a act" where
  "act_return x w = (Inr x, w)"

definition act_raise :: "py_error \<Rightarrow> 'a act" where
  "act_raise e w = (Inl e, w)"

definition act_of :: "py_error + 'a \<Rightarrow> 'a act" where
  "act_of r w = (r, w)"

definition act_bind :: "'a act \<Rightarrow> ('a \<Rightarrow> 'b act) \<Rightarrow> 'b act" where
  "act_bind m f w = (case m w of (Inl e, w') \<Rightarrow> (Inl e, w') | (Inr x, w') \<Rightarrow> f x w')"

definition users_handler :: "(users_database \<Rightarrow> (py_error + 'a) \<times> users_database) \<Rightarrow> 'a act" where
  "users_handler f w = (case f (database w) of (r, db) \<Rightarrow> (r, w\<lparr>database := db\<rparr>))"

definition backslash_n :: string where "backslash_n = [CHR 0x5C, CHR ''n'']"
definition backslash_t :: string where "backslash_t = [CHR 0x5C, CHR ''t'']"
definition newline :: string where "newline = [CHR 0x0A]"
definition tab :: string where "tab = [CHR 0x09]"

text \<open>
  \<open>_send_safe\<close>: the text goes out as \<open>text.replace("\\n", "\n").replace("\\t", "\t")\<close>,
  the two escapes replaced, first the line feed, then the tab. A failing send is caught
  and logged, so the call always returns; the state records the send request.
\<close>

definition expand_escapes :: "string \<Rightarrow> string" where
  "expand_escapes txt = replace (replace txt backslash_n newline) backslash_t tab"

definition send_safe :: "pyval \<Rightarrow> string \<Rightarrow> unit act" where
  "send_safe chat_id txt w = (Inr (), w\<lparr>sent := sent w @ [(chat_id, expand_escapes txt)]\<rparr>)"

text \<open>
  The log lines format \<open>user["full_name"]\<close>, \<open>user["username"]\<close> and \<open>user["id"]\<close>,
  in this order; a missing key raises. The log itself is not part of the state.
\<close>

definition name_username_id :: "user \<Rightarrow> py_error + (string \<times> string \<times> string)" where
  "name_username_id user =
     (case getitem user ''full_name'' of
        Inl e \<Rightarrow> Inl e
      | Inr n \<Rightarrow>
         (case getitem user ''username'' of
            Inl e \<Rightarrow> Inl e
          | Inr h \<Rightarrow>
             (case getitem user ''id'' of
                Inl e \<Rightarrow> Inl e
              | Inr i \<Rightarrow> Inr (py_str n, py_str h, py_str i))))"

definition logging_warning_user :: "user \<Rightarrow> unit act" where
  "logging_warning_user user = act_bind (act_of (name_username_id user)) (\<lambda>_. act_return ())"

section \<open>BotHandler: the prologue of every handler\<close>

text \<open>
  The two blocks \<open>if telegram_user_... is not None: user[key] = str(...); save_user(user)\<close>
  of \<open>_user_check_get\<close>, for the key they write.
\<close>

definition refresh :: "string \<Rightarrow> string option \<Rightarrow> user \<Rightarrow> user act" where
  "refresh key telegram_value user =
     (case telegram_value of
        None \<Rightarrow> act_return user
      | Some name \<Rightarrow>
          act_bind (users_handler (save_user (Some (user(key \<mapsto> PStr name)))))
            (\<lambda>_. act_return (user(key \<mapsto> PStr name))))"

definition user_check_get :: "config \<Rightarrow> update \<Rightarrow> user act" where
  "user_check_get cfg upd =
     (let telegram_chat_id = effective_chat_id upd;
          telegram_user_username = (case message upd of None \<Rightarrow> None | Some m \<Rightarrow> username m);
          telegram_user_full_name = (case message upd of None \<Rightarrow> None | Some m \<Rightarrow> Some (full_name m))
      in
      act_bind (users_handler (get_user_by_id telegram_chat_id)) (\<lambda>user.
      act_bind (refresh ''username'' telegram_user_username user) (\<lambda>user.
      act_bind (refresh ''full_name'' telegram_user_full_name user) (\<lambda>user.
      act_bind (act_of (getitem user ''banned'')) (\<lambda>banned.
      act_bind (if truthy banned
                then (let notice = strip (banned_message cfg)
                      in if length notice > 0
                         then send_safe (PInt telegram_chat_id) notice
                         else act_return ())
                else act_return ()) (\<lambda>_.
      act_return user))))))"

section \<open>BotHandler: text messages\<close>

text \<open>
  The prefix put before a relayed message: the full name, the handle after an at sign in
  parentheses, the id in parentheses, and two line feeds.
\<close>

definition message_prefix :: "user \<Rightarrow> py_error + string" where
  "message_prefix user =
     (case name_username_id user of
        Inl e \<Rightarrow> Inl e
      | Inr (n, h, i) \<Rightarrow> Inr (n @ '' (@'' @ h @ '') ('' @ i @ '')'' @ newline @ newline))"

fun broadcast :: "user list \<Rightarrow> string \<Rightarrow> unit act" where
  "broadcast [] message_text = act_return ()"
| "broadcast (broadcast_user # users) message_text =
     act_bind (act_of (getitem broadcast_user ''admin'')) (\<lambda>admin.
       if truthy admin
       then act_bind (logging_warning_user broadcast_user) (\<lambda>_.
            act_bind (act_of (getitem broadcast_user ''id'')) (\<lambda>chat_id.
            act_bind (send_safe chat_id message_text) (\<lambda>_.
            broadcast users message_text)))
       else broadcast users message_text)"

definition bot_message :: "config \<Rightarrow> update \<Rightarrow> unit act" where
  "bot_message cfg upd =
     act_bind (user_check_get cfg upd) (\<lambda>user.
     act_bind (logging_warning_user user) (\<lambda>_.
     act_bind (act_of (getitem user ''banned'')) (\<lambda>banned.
     if truthy banned then act_return () else
     act_bind (act_of (getitem user ''admin'')) (\<lambda>admin.
     if truthy admin then act_return () else
     act_bind (act_of (getitem user ''messages_total'')) (\<lambda>total.
     act_bind (act_of (py_add_one total)) (\<lambda>total.
     act_bind (users_handler (save_user (Some (user(''messages_total'' \<mapsto> total))))) (\<lambda>_.
     act_bind (act_of (py_le_int total (user_max_messages cfg))) (\<lambda>within.
     if within
     then act_bind (case message upd of
                      None \<Rightarrow> act_raise AttributeError
                    | Some m \<Rightarrow> act_return (msg_text m)) (\<lambda>message_text.
          act_bind (\<lambda>w. (Inr (read_users (database w)), w)) (\<lambda>users.
          act_bind (act_of (message_prefix (user(''messages_total'' \<mapsto> total)))) (\<lambda>info.
          act_bind (broadcast users (info @ message_text)) (\<lambda>_.
          act_bind (act_of (getitem (user(''messages_total'' \<mapsto> total)) ''id'')) (\<lambda>chat_id.
          send_safe chat_id (confirmation_message cfg))))))
     else act_return ()))))))))"

section \<open>BotHandler: commands\<close>

text \<open>
  \<open>/ban\<close> and \<open>/unban\<close>. \<open>args\<close> is \<open>context.args\<close>, the words after the command.
  Only the conversion of the first argument is inside the \<open>try\<close>.
\<close>

definition bot_command_ban_unban :: "bool \<Rightarrow> config \<Rightarrow> update \<Rightarrow> string list \<Rightarrow> unit act" where
  "bot_command_ban_unban ban cfg upd args =
     act_bind (user_check_get cfg upd) (\<lambda>user.
     act_bind (logging_warning_user user) (\<lambda>_.
     act_bind (act_of (getitem user ''banned'')) (\<lambda>banned.
     if truthy banned then act_return () else
     act_bind (act_of (getitem user ''admin'')) (\<lambda>admin.
     if \<not> truthy admin then act_return () else
     if args = [] \<or> length args < 1 then act_return () else
     (case py_int (args ! 0) of
        Inl e \<Rightarrow>
          act_bind (act_of (getitem user ''id'')) (\<lambda>chat_id. send_safe chat_id e)
      | Inr ban_user_id \<Rightarrow>
          act_bind (users_handler (get_user_by_id ban_user_id)) (\<lambda>banned_user.
          act_bind (users_handler (save_user (Some (banned_user(''banned'' \<mapsto> PBool ban))))) (\<lambda>_.
          act_bind (act_of (getitem user ''id'')) (\<lambda>chat_id.
          if ban
          then send_safe chat_id (ban_confirmation_message cfg)
          else send_safe chat_id (unban_confirmation_message cfg)))))))))"

definition bot_command_ban :: "config \<Rightarrow> update \<Rightarrow> string list \<Rightarrow> unit act" where
  "bot_command_ban = bot_command_ban_unban True"

definition bot_command_unban :: "config \<Rightarrow> update \<Rightarrow> string list \<Rightarrow> unit act" where
  "bot_command_unban = bot_command_ban_unban False"

definition bot_command_resetmessages :: "config \<Rightarrow> update \<Rightarrow> string list \<Rightarrow> unit act" where
  "bot_command_resetmessages cfg upd args =
     act_bind (user_check_get cfg upd) (\<lambda>user.
     act_bind (logging_warning_user user) (\<lambda>_.
     act_bind (act_of (getitem user ''banned'')) (\<lambda>banned.
     if truthy banned then act_return () else
     act_bind (act_of (getitem user ''admin'')) (\<lambda>admin.
     if \<not> truthy admin then act_return () else
     if args = [] \<or> length args < 1 then act_return () else
     (case py_int (args ! 0) of
        Inl e \<Rightarrow>
          act_bind (act_of (getitem user ''id'')) (\<lambda>chat_id. send_safe chat_id e)
      | Inr reset_user_id \<Rightarrow>
          act_bind (users_handler (get_user_by_id reset_user_id)) (\<lambda>reset_user.
          act_bind (users_handler (save_user (Some (reset_user(''messages_total'' \<mapsto> PInt 0))))) (\<lambda>_.
          act_bind (act_of (getitem user ''id'')) (\<lambda>chat_id.
          send_safe chat_id (resetmessages_confirmation_message cfg)))))))))"

text \<open>\<open>/users\<close>: a header, then one line for each profile.\<close>

definition users_header :: string where
  "users_header =
     ''id'' @ tab @ ''Username'' @ tab @ ''Full name'' @ tab @ ''Admin?'' @ tab @ ''Banned?'' @ tab
       @ ''Total messages'' @ newline @ newline"

definition users_row :: "user \<Rightarrow> py_error + string" where
  "users_row user_info =
     (case getitem user_info ''id'' of Inl e \<Rightarrow> Inl e | Inr i \<Rightarrow>
     (case getitem user_info ''username'' of Inl e \<Rightarrow> Inl e | Inr h \<Rightarrow>
     (case getitem user_info ''full_name'' of Inl e \<Rightarrow> Inl e | Inr n \<Rightarrow>
     (case getitem user_info ''admin'' of Inl e \<Rightarrow> Inl e | Inr a \<Rightarrow>
     (case getitem user_info ''banned'' of Inl e \<Rightarrow> Inl e | Inr b \<Rightarrow>
     (case getitem user_info ''messages_total'' of Inl e \<Rightarrow> Inl e | Inr t \<Rightarrow>
        Inr (py_str i @ tab @ ''@'' @ py_str h @ tab @ py_str n @ tab @ py_str a @ tab @ py_str b
               @ tab @ py_str t @ newline)))))))"

fun users_listing :: "user list \<Rightarrow> string \<Rightarrow> py_error + string" where
  "users_listing [] msg = Inr msg"
| "users_listing (user_info # users) msg =
     (case users_row user_info of
        Inl e \<Rightarrow> Inl e
      | Inr row \<Rightarrow> users_listing users (msg @ row))"

definition bot_command_users :: "config \<Rightarrow> update \<Rightarrow> unit act" where
  "bot_command_users cfg upd =
     act_bind (user_check_get cfg upd) (\<lambda>user.
     act_bind (logging_warning_user user) (\<lambda>_.
     act_bind (act_of (getitem user ''banned'')) (\<lambda>banned.
     if truthy banned then act_return () else
     act_bind (act_of (getitem user ''admin'')) (\<lambda>admin.
     if \<not> truthy admin then act_return () else
     act_bind (\<lambda>w. (Inr (read_users (database w)), w)) (\<lambda>users.
     act_bind (act_of (users_listing users users_header)) (\<lambda>msg.
     act_bind (act_of (getitem user ''id'')) (\<lambda>chat_id.
     send_safe chat_id msg)))))))"

text \<open>
  \<open>/restart\<close>: the notice, then the flag is set, the event loop is told to stop, and a
  thread that holds the admin's profile is started.
\<close>

definition bot_command_restart :: "config \<Rightarrow> update \<Rightarrow> unit act" where
  "bot_command_restart cfg upd =
     act_bind (user_check_get cfg upd) (\<lambda>user.
     act_bind (logging_warning_user user) (\<lambda>_.
     act_bind (act_of (getitem user ''banned'')) (\<lambda>banned.
     if truthy banned then act_return () else
     act_bind (act_of (getitem user ''admin'')) (\<lambda>admin.
     if \<not> truthy admin then act_return () else
     act_bind (act_of (getitem user ''id'')) (\<lambda>chat_id.
     act_bind (send_safe chat_id (restart_message_start cfg)) (\<lambda>_.
     (\<lambda>w. (Inr (), w\<lparr>restart_requested_flag := True,
                      event_loop_stopped := True,
                      restart_threads := restart_threads w @ [user]\<rparr>))))))))"

text \<open>
  The thread \<open>send_message_after_restart\<close>: it sleeps while the flag is set, then sends
  the notice. The list holds the values of the flag it reads, one for each test of its
  loop; None says that it is still waiting when the list ends. The send is inside a
  \<open>try\<close>, so a failure sends nothing. Only the line feed escape is replaced here.
\<close>

fun send_message_after_restart :: "config \<Rightarrow> user \<Rightarrow> bool list \<Rightarrow> (pyval \<times> string) list option" where
  "send_message_after_restart cfg user [] = None"
| "send_message_after_restart cfg user (flag # flags) =
     (if flag then send_message_after_restart cfg user flags
      else Some (case getitem user ''id'' of
                   Inl e \<Rightarrow> []
                 | Inr chat_id \<Rightarrow> [(chat_id, replace (restart_message_done cfg) backslash_n newline)]))"

definition bot_command_chatid :: "config \<Rightarrow> update \<Rightarrow> unit act" where
  "bot_command_chatid cfg upd =
     act_bind (user_check_get cfg upd) (\<lambda>user.
     act_bind (logging_warning_user user) (\<lambda>_.
     act_bind (act_of (getitem user ''id'')) (\<lambda>chat_id.
     send_safe chat_id (py_str chat_id))))"

definition bot_command_start :: "config \<Rightarrow> update \<Rightarrow> unit act" where
  "bot_command_start cfg upd =
     act_bind (user_check_get cfg upd) (\<lambda>user.
     act_bind (logging_warning_user user) (\<lambda>_.
     act_bind (act_of (getitem user ''banned'')) (\<lambda>banned.
     if truthy banned then act_return () else
     act_bind (act_of (getitem user ''admin'')) (\<lambda>admin.
     act_bind (act_of (getitem user ''id'')) (\<lambda>chat_id.
     if truthy admin
     then send_safe chat_id (admin_message cfg)
     else (\<lambda>w. send_safe chat_id (form_message w) w))))))"

text \<open>
  The handlers registered in \<open>start_bot\<close>, by the kind of inbound event. A command
  without a handler is ignored.
\<close>

datatype event =
    Start | ChatId | TextMessage | Users | Ban | Unban | Restart | ResetMessages | UnknownCommand

fun dispatch :: "event \<Rightarrow> config \<Rightarrow> update \<Rightarrow> string list \<Rightarrow> unit act" where
  "dispatch Start cfg upd args = bot_command_start cfg upd"
| "dispatch ChatId cfg upd args = bot_command_chatid cfg upd"
| "dispatch TextMessage cfg upd args = bot_message cfg upd"
| "dispatch Users cfg upd args = bot_command_users cfg upd"
| "dispatch Ban cfg upd args = bot_command_ban cfg upd args"
| "dispatch Unban cfg upd args = bot_command_unban cfg upd args"
| "dispatch Restart cfg upd args = bot_command_restart cfg upd"
| "dispatch ResetMessages cfg upd args = bot_command_resetmessages cfg upd args"
| "dispatch UnknownCommand cfg upd args = act_return ()"

section \<open>BotHandler: the supervisor loop\<close>

definition RESTART_ON_ERROR_DELAY :: nat where
  "RESTART_ON_ERROR_DELAY = 10"

text \<open>\<open>needle in haystack\<close> on strings.\<close>

fun contains :: "string \<Rightarrow> string \<Rightarrow> bool" where
  "contains needle [] = (needle = [])"
| "contains needle (c # cs) = (take (length needle) (c # cs) = needle \<or> contains needle cs)"

text \<open>
  One pass of the \<open>while True\<close> of \<open>start_bot\<close> enters the \<open>try\<close> block, which reads
  the form, builds the bot and polls (the event \<open>Connect\<close>). The pass is driven by what
  happens outside the program: whether \<open>/restart\<close> set the flag while the bot was polling, how the \<open>try\<close>
  block ended (it returned, or raised KeyboardInterrupt, or raised another exception with
  the text \<open>str(e)\<close>), and whether KeyboardInterrupt arrived during the sleep.
\<close>

datatype ending = Returned | KeyboardInterrupt | Error string

record polling_run =
  restart_requested :: bool
  ending :: ending
  sleep_interrupted :: bool

datatype supervisor_event =
    Connect
  | LogWarning string
  | LogError string
  | Sleep nat

text \<open>
  What follows the \<open>try\<close> statement when no \<open>break\<close> was taken: the wait unless a
  restart was requested, then the flag is cleared. None is \<open>break\<close>, Some is the flag
  with which the next pass starts.
\<close>

definition wait_and_restart :: "bool \<Rightarrow> polling_run \<Rightarrow> supervisor_event list \<times> bool option" where
  "wait_and_restart flag run =
     (if \<not> flag
      then (if sleep_interrupted run
            then ([LogWarning ''Restarting bot polling after 10 seconds'',
                   LogWarning ''KeyboardInterrupt @ bot_start''], None)
            else ([LogWarning ''Restarting bot polling after 10 seconds'',
                   Sleep RESTART_ON_ERROR_DELAY,
                   LogWarning ''Restarting bot polling''], Some False))
      else ([LogWarning ''Restarting bot polling''], Some False))"

definition prepend :: "'a list \<Rightarrow> 'a list \<times> 'b \<Rightarrow> 'a list \<times> 'b" where
  "prepend xs r = (xs @ fst r, snd r)"

definition pass :: "bool \<Rightarrow> polling_run \<Rightarrow> supervisor_event list \<times> bool option" where
  "pass flag0 run =
     (let flag = (flag0 \<or> restart_requested run) in
      prepend [Connect]
        (case ending run of
           KeyboardInterrupt \<Rightarrow> ([LogWarning ''KeyboardInterrupt @ bot_start''], None)
         | Error e \<Rightarrow>
             if contains ''Event loop is closed'' e
             then (if \<not> flag
                   then ([LogWarning ''Stopping telegram bot''], None)
                   else wait_and_restart flag run)
             else prepend [LogError ''Telegram bot error!''] (wait_and_restart flag run)
         | Returned \<Rightarrow> wait_and_restart flag run))"

text \<open>
  \<open>start_bot\<close> on the passes the environment allows: the events in order, and None when
  the loop was left, or the flag with which the loop goes on when the list ends.
\<close>

fun start_bot :: "bool \<Rightarrow> polling_run list \<Rightarrow> supervisor_event list \<times> bool option" where
  "start_bot flag [] = ([], Some flag)"
| "start_bot flag (run # runs) =
     (case pass flag run of
        (events, None) \<Rightarrow> (events @ [LogWarning ''Telegram bot stopped''], None)
      | (events, Some flag') \<Rightarrow> prepend events (start_bot flag' runs))"

section \<open>Predicates for stating the properties\<close>

text \<open>
  Python's \<open>==\<close> identifies a boolean with the integer it counts as; \<open>id_key\<close> maps
  a value to the representative of its class, and the ids of a list of profiles are
  unique when no two of them are equal in that sense.
\<close>

fun id_key :: "pyval \<Rightarrow> pyval" where
  "id_key (PBool b) = PInt (if b then 1 else 0)"
| "id_key v = v"

definition unique_ids :: "user list \<Rightarrow> bool" where
  "unique_ids users = distinct (map (\<lambda>u. map_option id_key (u ''id'')) users)"

text \<open>
  A well-formed profile has the six fields of \<open>_create_user\<close> with values of the
  types written there.
\<close>

definition is_int :: "pyval option \<Rightarrow> bool" where
  "is_int v = (case v of Some (PInt n) \<Rightarrow> True | _ \<Rightarrow> False)"

definition is_str :: "pyval option \<Rightarrow> bool" where
  "is_str v = (case v of Some (PStr s) \<Rightarrow> True | _ \<Rightarrow> False)"

definition is_bool :: "pyval option \<Rightarrow> bool" where
  "is_bool v = (case v of Some (PBool b) \<Rightarrow> True | _ \<Rightarrow> False)"

definition wf_user :: "user \<Rightarrow> bool" where
  "wf_user u =
     (is_int (u ''id'') \<and> is_str (u ''username'') \<and> is_str (u ''full_name'') \<and>
      is_bool (u ''admin'') \<and> is_bool (u ''banned'') \<and> is_int (u ''messages_total''))"

definition wf_store :: "users_database \<Rightarrow> bool" where
  "wf_store db = list_all wf_user (read_users db)"

text \<open>
  \<open>holds uid u db\<close>: the well-formed store has the well-formed profile \<open>u\<close> under
  the id \<open>uid\<close>. \<open>admin_ids users\<close>: the ids of the profiles whose admin flag is true, in
  the order of the store. \<open>frame uid db db'\<close>: the lookup of every id other than \<open>uid\<close>
  gives the same in both stores, and so do the ids of the admins.
\<close>

definition holds :: "int \<Rightarrow> user \<Rightarrow> users_database \<Rightarrow> bool" where
  "holds uid u db \<longleftrightarrow>
     wf_store db \<and> wf_user u \<and> u ''id'' = Some (PInt uid) \<and>
     find_user uid (read_users db) = Inr (Some u)"

definition admin_ids :: "user list \<Rightarrow> pyval list" where
  "admin_ids users =
     map (\<lambda>a. the (a ''id'')) (filter (\<lambda>a. a ''admin'' = Some (PBool True)) users)"

definition frame :: "int \<Rightarrow> users_database \<Rightarrow> users_database \<Rightarrow> bool" where
  "frame uid db db' \<longleftrightarrow>
     (\<forall>uid'. uid' \<noteq> uid \<longrightarrow> find_user uid' (read_users db') = find_user uid' (read_users db)) \<and>
     admin_ids (read_users db') = admin_ids (read_users db)"

text \<open>
  What the prologue of a handler makes of the stored profile (the names the update
  supplies are written into it), and the notice it sends to a banned sender.
\<close>

definition refreshed :: "update \<Rightarrow> user \<Rightarrow> user" where
  "refreshed upd u =
     (case message upd of
        None \<Rightarrow> u
      | Some m \<Rightarrow>
          (case username m of None \<Rightarrow> u | Some name \<Rightarrow> u(''username'' \<mapsto> PStr name))
            (''full_name'' \<mapsto> PStr (full_name m)))"

definition banned_notice :: "config \<Rightarrow> update \<Rightarrow> user \<Rightarrow> (pyval \<times> string) list" where
  "banned_notice cfg upd u =
     (if u ''banned'' = Some (PBool True) \<and> 0 < length (strip (banned_message cfg))
      then [(PInt (effective_chat_id upd), expand_escapes (strip (banned_message cfg)))]
      else [])"

text \<open>The field \<open>key\<close> of the profile stored under \<open>uid\<close>, None when there is none.\<close>

definition stored_field :: "users_database \<Rightarrow> int \<Rightarrow> string \<Rightarrow> pyval option" where
  "stored_field db uid key =
     (case find_user uid (read_users db) of Inr (Some p) \<Rightarrow> p key | _ \<Rightarrow> None)"

text \<open>
  Inputs for the examples: a configuration with a quota of three messages, a store with
  an admin, a sender who has sent two messages and a banned user, and an update from a
  chat with the sender's handle, full name and text.
\<close>

definition example_config :: config where
  "example_config =
     \<lparr>user_max_messages = 3,
      confirmation_message = ''Sent'',
      banned_message = '' You are banned '',
      ban_confirmation_message = ''Banned'',
      unban_confirmation_message = ''Unbanned'',
      resetmessages_confirmation_message = ''Reset'',
      admin_message = ''Admin help'',
      restart_message_start = ''Restarting'',
      restart_message_done = ''Restarted'' @ backslash_t @ ''ok'' @ backslash_n\<rparr>"

definition example_admin :: user where
  "example_admin = (new_user 1)(''admin'' \<mapsto> PBool True)"

definition example_sender :: user where
  "example_sender = (new_user 42)(''messages_total'' \<mapsto> PInt 2)"

definition example_banned :: user where
  "example_banned = (new_user 66)(''banned'' \<mapsto> PBool True)"

definition example_bot :: bot where
  "example_bot =
     \<lparr>database = Some [example_admin, example_sender, example_banned],
      sent = [],
      restart_requested_flag = False,
      form_message = ''Form'',
      event_loop_stopped = False,
      restart_threads = []\<rparr>"

definition update_from :: "int \<Rightarrow> string \<Rightarrow> string \<Rightarrow> string \<Rightarrow> update" where
  "update_from chat_id handle name txt =
     \<lparr>effective_chat_id = chat_id,
      message = Some \<lparr>username = Some handle, full_name = name, msg_text = txt\<rparr>\<rparr>"

text \<open>
  A polling run that ends in an error other than the closed event loop, with no restart
  asked for and an undisturbed sleep.
\<close>

definition generic_error :: "polling_run \<Rightarrow> bool" where
  "generic_error run \<longleftrightarrow>
     \<not> restart_requested run \<and> \<not> sleep_interrupted run \<and>
     (case ending run of Error e \<Rightarrow> \<not> contains ''Event loop is closed'' e | _ \<Rightarrow> False)"

text \<open>
  Example runs: the event loop closed by \<open>/restart\<close>, a connection error, and an
  interrupt from the keyboard.
\<close>

definition example_restart :: polling_run where
  "example_restart =
     \<lparr>restart_requested = True, ending = Error ''Event loop is closed'', sleep_interrupted = False\<rparr>"

definition example_error :: polling_run where
  "example_error =
     \<lparr>restart_requested = False, ending = Error ''Connection reset'', sleep_interrupted = False\<rparr>"

definition example_interrupt :: polling_run where
  "example_interrupt =
     \<lparr>restart_requested = False, ending = KeyboardInterrupt, sleep_interrupted = False\<rparr>"

section \<open>The user store: lookups and saves\<close>

lemma py_eq_id_key: "py_eq a b \<longleftrightarrow> id_key a = id_key b"
  by (cases a; cases b) (auto simp: py_eq_def)

lemma read_users_save_json [simp]: "read_users (save_json users) = users"
  by (simp add: read_users_def save_json_def load_json_def)

lemma read_users_None [simp]: "read_users None = []"
  by (simp add: read_users_def load_json_def)

lemma read_users_Some [simp]: "read_users (Some users) = users"
  by (simp add: read_users_def load_json_def)

lemma find_index_range:
  "find_index ud users i = Inr r \<Longrightarrow> r = - 1 \<or> (i \<le> r \<and> r < i + int (length users))"
  by (induction users arbitrary: i) (fastforce split: sum.splits if_splits)+

lemma find_index_absent:
  "find_index ud users i = Inr (- 1) \<Longrightarrow> 0 \<le> i \<Longrightarrow> u \<in> set users \<Longrightarrow>
     \<exists>v w. u ''id'' = Some v \<and> ud ''id'' = Some w \<and> \<not> py_eq v w"
proof (induction users arbitrary: i)
  case Nil
  then show ?case by simp
next
  case (Cons a users)
  then show ?case
    by (auto simp: getitem_def split: option.splits if_splits)
qed

lemma find_index_found:
  "find_index ud users i = Inr r \<Longrightarrow> 0 \<le> i \<Longrightarrow> i \<le> r \<Longrightarrow>
     \<exists>v w. (users ! nat (r - i)) ''id'' = Some v \<and> ud ''id'' = Some w \<and> py_eq v w"
proof (induction users arbitrary: i)
  case Nil
  then show ?case by simp
next
  case (Cons a users)
  show ?case
  proof (cases "r = i")
    case True
    with Cons.prems show ?thesis
      by (auto simp: getitem_def split: option.splits if_splits dest: find_index_range)
  next
    case False
    with Cons.prems have rec: "find_index ud users (i + 1) = Inr r"
      by (auto simp: getitem_def split: option.splits if_splits)
    from False Cons.prems have le: "i + 1 \<le> r" by simp
    from Cons.prems have "0 \<le> i + 1" by simp
    from Cons.IH [OF rec this le] have
      "\<exists>v w. (users ! nat (r - (i + 1))) ''id'' = Some v \<and> ud ''id'' = Some w \<and> py_eq v w" .
    moreover from le have "nat (r - i) = Suc (nat (r - (i + 1)))" by simp
    ultimately show ?thesis by simp
  qed
qed

lemma unique_ids_update:
  assumes "unique_ids users" "k < length users"
    and "map_option id_key (x ''id'') = map_option id_key ((users ! k) ''id'')"
  shows "unique_ids (users[k := x])"
proof -
  have "map (\<lambda>u. map_option id_key (u ''id'')) (users[k := x]) =
        map (\<lambda>u. map_option id_key (u ''id'')) users"
    using assms(2,3) by (simp add: map_update list_update_same_conv)
  with assms(1) show ?thesis by (simp add: unique_ids_def)
qed

lemma unique_ids_save_user:
  assumes "unique_ids (read_users db)"
  shows "unique_ids (read_users (snd (save_user user_data db)))"
proof (cases user_data)
  case None
  with assms show ?thesis by (simp add: save_user_def Let_def)
next
  case (Some ud)
  let ?users = "read_users db"
  show ?thesis
  proof (cases "find_index ud ?users 0")
    case (Inl e)
    with Some assms show ?thesis by (simp add: save_user_def Let_def)
  next
    case (Inr r)
    show ?thesis
    proof (cases "0 \<le> r")
      case True
      from find_index_range [OF Inr] True have k: "nat r < length ?users" by auto
      from find_index_found [OF Inr _ True] obtain v w where
        "(?users ! nat r) ''id'' = Some v" "ud ''id'' = Some w" "py_eq v w" by auto
      then have "map_option id_key (((?users ! nat r) ++ ud) ''id'') =
                 map_option id_key ((?users ! nat r) ''id'')"
        by (simp add: map_add_def py_eq_id_key)
      with assms k have "unique_ids (?users[nat r := (?users ! nat r) ++ ud])"
        by (rule unique_ids_update)
      with Some Inr True show ?thesis
        by (simp add: save_user_def Let_def)
    next
      case False
      with find_index_range [OF Inr] have r: "r = - 1" by auto
      have "map_option id_key (ud ''id'') \<notin> (\<lambda>u. map_option id_key (u ''id'')) ` set ?users"
      proof
        assume "map_option id_key (ud ''id'') \<in> (\<lambda>u. map_option id_key (u ''id'')) ` set ?users"
        then obtain u where u: "u \<in> set ?users"
          and eq: "map_option id_key (ud ''id'') = map_option id_key (u ''id'')" by auto
        from find_index_absent [OF Inr [unfolded r] _ u] obtain v w where
          "u ''id'' = Some v" "ud ''id'' = Some w" "\<not> py_eq v w" by auto
        with eq show False by (simp add: py_eq_id_key)
      qed
      with assms Some Inr r show ?thesis
        by (simp add: save_user_def unique_ids_def Let_def)
    qed
  qed
qed

lemma unique_ids_get_user_by_id:
  assumes "unique_ids (read_users db)"
  shows "unique_ids (read_users (snd (get_user_by_id uid db)))"
proof (cases "find_user uid (read_users db)")
  case (Inl e)
  with assms show ?thesis by (simp add: get_user_by_id_def)
next
  case (Inr found)
  show ?thesis
  proof (cases found)
    case None
    have "snd (create_user uid db) = snd (save_user (Some (new_user uid)) db)"
      by (simp add: create_user_def Let_def split: prod.splits sum.splits)
    with Inr None unique_ids_save_user [OF assms, of "Some (new_user uid)"] show ?thesis
      by (simp add: get_user_by_id_def)
  next
    case (Some u)
    with Inr assms show ?thesis by (simp add: get_user_by_id_def)
  qed
qed

lemma py_eq_trans_PInt:
  "py_eq w (PInt uid) \<Longrightarrow> py_eq v w = py_eq v (PInt uid)"
  by (simp add: py_eq_id_key)

lemma find_user_None_index:
  "find_user uid users = Inr None \<Longrightarrow> ud ''id'' = Some w \<Longrightarrow> py_eq w (PInt uid) \<Longrightarrow>
     find_index ud users i = Inr (- 1) \<and> find_user uid (users @ [ud]) = Inr (Some ud)"
proof (induction users arbitrary: i)
  case Nil
  then show ?case by (simp add: getitem_def)
next
  case (Cons a users)
  then show ?case
    by (auto simp: getitem_def py_eq_trans_PInt split: option.splits if_splits)
qed

lemma find_user_Some_index:
  "find_user uid users = Inr (Some u) \<Longrightarrow> ud ''id'' = Some w \<Longrightarrow> py_eq w (PInt uid) \<Longrightarrow>
     \<exists>k. k < length users \<and> users ! k = u \<and> find_index ud users i = Inr (i + int k) \<and>
         find_user uid (users[k := x]) =
           (case getitem x ''id'' of Inl e \<Rightarrow> Inl e
            | Inr v \<Rightarrow> if py_eq v (PInt uid) then Inr (Some x) else find_user uid (drop (Suc k) users))"
proof (induction users arbitrary: i)
  case Nil
  then show ?case by simp
next
  case (Cons a users)
  from Cons.prems(1) obtain v where v: "a ''id'' = Some v"
    by (auto simp: getitem_def split: option.splits)
  show ?case
  proof (cases "py_eq v (PInt uid)")
    case True
    with Cons.prems v have "a = u" by (simp add: getitem_def)
    with True v Cons.prems show ?thesis
      by (intro exI [of _ 0]) (simp add: getitem_def py_eq_trans_PInt split: option.splits)
  next
    case False
    with Cons.prems v have "find_user uid users = Inr (Some u)" by (simp add: getitem_def)
    from Cons.IH [where i = "i + 1", OF this] Cons.prems(2,3) obtain k where
      k: "k < length users" "users ! k = u" "find_index ud users (i + 1) = Inr (i + 1 + int k)"
         "find_user uid (users[k := x]) =
           (case getitem x ''id'' of Inl e \<Rightarrow> Inl e
            | Inr v \<Rightarrow> if py_eq v (PInt uid) then Inr (Some x) else find_user uid (drop (Suc k) users))"
      by blast
    with False v Cons.prems(2,3) show ?thesis
      by (intro exI [of _ "Suc k"]) (simp add: getitem_def py_eq_trans_PInt split: option.splits)
  qed
qed

lemma find_user_total:
  "\<forall>u \<in> set users. u ''id'' \<noteq> None \<Longrightarrow> \<exists>r. find_user uid users = Inr r"
  by (induction users) (auto simp: getitem_def)

lemma find_user_mem: "find_user uid users = Inr (Some u) \<Longrightarrow> u \<in> set users"
  by (induction users) (auto simp: getitem_def split: option.splits if_splits)

lemma find_user_id:
  "find_user uid users = Inr (Some u) \<Longrightarrow> \<exists>v. u ''id'' = Some v \<and> py_eq v (PInt uid)"
  by (induction users) (auto simp: getitem_def split: option.splits if_splits)

lemma new_user_id [simp]: "new_user uid ''id'' = Some (PInt uid)"
  by (simp add: new_user_def)

lemma py_eq_refl [simp]: "py_eq v v"
  by (simp add: py_eq_id_key)

lemma save_user_absent:
  assumes "find_user uid (read_users db) = Inr None" "ud ''id'' = Some w" "py_eq w (PInt uid)"
  shows "save_user (Some ud) db = (Inr (), save_json (read_users db @ [ud]))"
  using find_user_None_index [where ud = ud and i = 0 and uid = uid and users = "read_users db"] assms
  by (simp add: save_user_def Let_def)

lemma save_user_present:
  assumes "find_user uid (read_users db) = Inr (Some u)" "ud ''id'' = Some w" "py_eq w (PInt uid)"
  shows "\<exists>k. k < length (read_users db) \<and> read_users db ! k = u \<and>
           save_user (Some ud) db = (Inr (), save_json ((read_users db)[k := u ++ ud])) \<and>
           find_user uid ((read_users db)[k := u ++ ud]) = Inr (Some (u ++ ud))"
proof -
  from find_user_Some_index [where ud = ud and i = 0 and x = "u ++ ud" and uid = uid
      and users = "read_users db" and u = u] assms obtain k where
    k: "k < length (read_users db)" "read_users db ! k = u"
       "find_index ud (read_users db) 0 = Inr (int k)"
       "find_user uid ((read_users db)[k := u ++ ud]) =
           (case getitem (u ++ ud) ''id'' of Inl e \<Rightarrow> Inl e
            | Inr v \<Rightarrow> if py_eq v (PInt uid) then Inr (Some (u ++ ud))
                       else find_user uid (drop (Suc k) (read_users db)))"
    by auto
  from k(4) assms(2,3) have "find_user uid ((read_users db)[k := u ++ ud]) = Inr (Some (u ++ ud))"
    by (simp add: getitem_def map_add_def)
  with k show ?thesis
    by (intro exI [of _ k]) (simp add: save_user_def Let_def)
qed

lemma get_user_by_id_absent:
  assumes "find_user uid (read_users db) = Inr None"
  shows "get_user_by_id uid db = (Inr (new_user uid), save_json (read_users db @ [new_user uid]))"
  using assms save_user_absent [where ud = "new_user uid" and w = "PInt uid" and uid = uid and db = db]
  by (simp add: get_user_by_id_def create_user_def Let_def)

lemma get_user_by_id_present:
  assumes "find_user uid (read_users db) = Inr (Some u)"
  shows "get_user_by_id uid db = (Inr u, db)"
  using assms by (simp add: get_user_by_id_def)

lemma get_user_by_id_twice:
  assumes "fst (get_user_by_id uid db) = Inr u"
  shows "get_user_by_id uid (snd (get_user_by_id uid db)) = (Inr u, snd (get_user_by_id uid db))"
proof (cases "find_user uid (read_users db)")
  case (Inl e)
  with assms show ?thesis by (simp add: get_user_by_id_def)
next
  case (Inr found)
  show ?thesis
  proof (cases found)
    case None
    with Inr have absent: "find_user uid (read_users db) = Inr None" by simp
    from get_user_by_id_absent [OF absent] assms have u: "u = new_user uid" by simp
    from find_user_None_index [where ud = "new_user uid" and w = "PInt uid" and i = 0
        and uid = uid and users = "read_users db"] absent
    have "find_user uid (read_users db @ [new_user uid]) = Inr (Some (new_user uid))" by simp
    then have "get_user_by_id uid (save_json (read_users db @ [new_user uid])) =
                 (Inr (new_user uid), save_json (read_users db @ [new_user uid]))"
      by (simp add: get_user_by_id_def)
    with get_user_by_id_absent [OF absent] u show ?thesis by simp
  next
    case (Some v)
    with Inr assms show ?thesis by (simp add: get_user_by_id_def)
  qed
qed

section \<open>Well-formed stores\<close>

lemma is_int_iff: "is_int v \<longleftrightarrow> (\<exists>n. v = Some (PInt n))"
  by (auto simp: is_int_def split: option.splits pyval.splits)

lemma is_str_iff: "is_str v \<longleftrightarrow> (\<exists>s. v = Some (PStr s))"
  by (auto simp: is_str_def split: option.splits pyval.splits)

lemma is_bool_iff: "is_bool v \<longleftrightarrow> (\<exists>b. v = Some (PBool b))"
  by (auto simp: is_bool_def split: option.splits pyval.splits)

lemma py_eq_PInt [simp]: "py_eq (PInt a) (PInt b) \<longleftrightarrow> a = b"
  by (simp add: py_eq_def)

lemma wf_user_new_user [simp]: "wf_user (new_user uid)"
  by (simp add: wf_user_def new_user_def is_int_def is_str_def is_bool_def)

lemma wf_user_upd:
  "wf_user u \<Longrightarrow> k \<noteq> ''id'' \<Longrightarrow>
     (k = ''username'' \<longrightarrow> is_str (Some v)) \<Longrightarrow> (k = ''full_name'' \<longrightarrow> is_str (Some v)) \<Longrightarrow>
     (k = ''admin'' \<longrightarrow> is_bool (Some v)) \<Longrightarrow> (k = ''banned'' \<longrightarrow> is_bool (Some v)) \<Longrightarrow>
     (k = ''messages_total'' \<longrightarrow> is_int (Some v)) \<Longrightarrow> wf_user (u(k \<mapsto> v))"
  by (simp add: wf_user_def)

lemma wf_store_find_user:
  assumes "wf_store db"
  shows "find_user uid (read_users db) = Inr None \<or>
         (\<exists>u. find_user uid (read_users db) = Inr (Some u) \<and> wf_user u \<and> u ''id'' = Some (PInt uid))"
proof -
  have ids: "\<forall>p \<in> set (read_users db). p ''id'' \<noteq> None"
    using assms by (auto simp: wf_store_def list_all_iff wf_user_def is_int_iff)
  from find_user_total [OF ids, of uid] obtain r where r: "find_user uid (read_users db) = Inr r" ..
  show ?thesis
  proof (cases r)
    case None
    with r show ?thesis by simp
  next
    case (Some u)
    with r have f: "find_user uid (read_users db) = Inr (Some u)" by simp
    from find_user_mem [OF f] assms have wf: "wf_user u"
      by (simp add: wf_store_def list_all_iff)
    from find_user_id [OF f] obtain v where v: "u ''id'' = Some v" "py_eq v (PInt uid)" by auto
    from wf v(1) obtain n where "v = PInt n" by (auto simp: wf_user_def is_int_iff)
    with v have "u ''id'' = Some (PInt uid)" by simp
    with f wf show ?thesis by simp
  qed
qed

lemma find_user_append_other:
  "find_user uid' users = Inr r \<Longrightarrow> x ''id'' = Some w \<Longrightarrow> \<not> py_eq w (PInt uid') \<Longrightarrow>
     find_user uid' (users @ [x]) = Inr r"
  by (induction users) (auto simp: getitem_def split: option.splits if_splits)

lemma find_user_update_other:
  "k < length users \<Longrightarrow> (users ! k) ''id'' = Some v \<Longrightarrow> \<not> py_eq v (PInt uid') \<Longrightarrow>
     x ''id'' = Some w \<Longrightarrow> \<not> py_eq w (PInt uid') \<Longrightarrow>
     find_user uid' (users[k := x]) = find_user uid' users"
proof (induction users arbitrary: k)
  case Nil
  then show ?case by simp
next
  case (Cons a users)
  then show ?case
    by (cases k) (auto simp: getitem_def split: option.splits)
qed

lemma frame_refl [simp]: "frame uid db db"
  by (simp add: frame_def)

lemma frame_trans: "frame uid a b \<Longrightarrow> frame uid b c \<Longrightarrow> frame uid a c"
  by (simp add: frame_def)

lemma get_user_by_id_wf:
  assumes "wf_store db"
  shows "\<exists>u db'. get_user_by_id uid db = (Inr u, db') \<and> holds uid u db' \<and> frame uid db db'"
proof -
  from wf_store_find_user [OF assms, of uid] show ?thesis
  proof
    assume absent: "find_user uid (read_users db) = Inr None"
    let ?db' = "save_json (read_users db @ [new_user uid])"
    have "find_user uid (read_users db @ [new_user uid]) = Inr (Some (new_user uid))"
      using find_user_None_index [where ud = "new_user uid" and w = "PInt uid" and i = 0
        and uid = uid and users = "read_users db"] absent by simp
    moreover have "wf_store ?db'"
      using assms by (simp add: wf_store_def)
    moreover have "frame uid db ?db'"
    proof -
      have "find_user uid' (read_users db @ [new_user uid]) = find_user uid' (read_users db)"
        if "uid' \<noteq> uid" for uid'
      proof -
        from wf_store_find_user [OF assms, of uid'] obtain r where
          "find_user uid' (read_users db) = Inr r" by auto
        with that find_user_append_other [of uid' "read_users db" r "new_user uid" "PInt uid"]
        show ?thesis by simp
      qed
      then show ?thesis by (simp add: frame_def admin_ids_def new_user_def)
    qed
    ultimately show ?thesis
      using get_user_by_id_absent [OF absent] by (simp add: holds_def)
  next
    assume "\<exists>u. find_user uid (read_users db) = Inr (Some u) \<and> wf_user u \<and> u ''id'' = Some (PInt uid)"
    then obtain u where u: "find_user uid (read_users db) = Inr (Some u)" "wf_user u"
      "u ''id'' = Some (PInt uid)" by auto
    with assms get_user_by_id_present [OF u(1)] show ?thesis by (simp add: holds_def)
  qed
qed

lemma map_add_self [simp]: "(u :: user) ++ u = u"
  by (rule ext) (simp add: map_add_def split: option.splits)

lemma wf_store_update:
  "wf_store db \<Longrightarrow> wf_user x \<Longrightarrow> wf_store (save_json ((read_users db)[k := x]))"
  using set_update_subset_insert [of "read_users db" k x]
  by (auto simp: wf_store_def list_all_iff)

lemma admin_ids_update:
  "j < length users \<Longrightarrow> x ''id'' = (users ! j) ''id'' \<Longrightarrow> x ''admin'' = (users ! j) ''admin'' \<Longrightarrow>
     admin_ids (users[j := x]) = admin_ids users"
proof (induction users arbitrary: j)
  case Nil
  then show ?case by simp
next
  case (Cons a users)
  show ?case
  proof (cases j)
    case 0
    with Cons.prems show ?thesis by (simp add: admin_ids_def)
  next
    case (Suc i)
    with Cons.prems Cons.IH [of i] show ?thesis by (simp add: admin_ids_def)
  qed
qed

lemma save_user_wf:
  assumes "holds uid u db" "wf_user (u(k \<mapsto> v))" "k \<noteq> ''id''" "k \<noteq> ''admin''"
  shows "\<exists>db'. save_user (Some (u(k \<mapsto> v))) db = (Inr (), db') \<and> holds uid (u(k \<mapsto> v)) db' \<and>
           frame uid db db'"
proof -
  let ?ud = "u(k \<mapsto> v)"
  from assms have found: "find_user uid (read_users db) = Inr (Some u)"
    and uid: "u ''id'' = Some (PInt uid)" and wf: "wf_store db"
    by (simp_all add: holds_def)
  from uid assms(3) have ud: "?ud ''id'' = Some (PInt uid)" by simp
  from save_user_present [where ud = ?ud and w = "PInt uid" and uid = uid and db = db and u = u]
    found ud obtain j where
    j: "j < length (read_users db)" "read_users db ! j = u"
       "save_user (Some ?ud) db = (Inr (), save_json ((read_users db)[j := u ++ ?ud]))"
       "find_user uid ((read_users db)[j := u ++ ?ud]) = Inr (Some (u ++ ?ud))"
    by auto
  let ?db' = "save_json ((read_users db)[j := ?ud])"
  have "admin_ids (read_users ?db') = admin_ids (read_users db)"
    using admin_ids_update [of j "read_users db" ?ud] j(1,2) assms(3,4) by simp
  then have "frame uid db ?db'"
    using j(1,2) uid ud find_user_update_other [of j "read_users db" "PInt uid" _ ?ud "PInt uid"]
    by (simp add: frame_def)
  moreover have "wf_store ?db'"
    using wf assms(2) by (rule wf_store_update)
  ultimately show ?thesis
    using j assms(2) ud by (simp add: holds_def)
qed

section \<open>Running the handlers' prologue\<close>

lemma act_return_apply [simp]: "act_return x w = (Inr x, w)"
  by (simp add: act_return_def)

lemma act_raise_apply [simp]: "act_raise e w = (Inl e, w)"
  by (simp add: act_raise_def)

lemma act_of_apply [simp]: "act_of r w = (r, w)"
  by (simp add: act_of_def)

lemma act_bind_Inr: "m w = (Inr x, w') \<Longrightarrow> act_bind m f w = f x w'"
  by (simp add: act_bind_def)

lemma act_bind_Inl: "m w = (Inl e, w') \<Longrightarrow> act_bind m f w = (Inl e, w')"
  by (simp add: act_bind_def)

lemma act_bind_return [simp]: "act_bind (act_return x) f w = f x w"
  by (simp add: act_bind_def)

lemma act_bind_of_Inr [simp]: "act_bind (act_of (Inr x)) f w = f x w"
  by (simp add: act_bind_def)

lemma act_bind_read_users [simp]:
  "act_bind (\<lambda>w. (Inr (read_users (database w)), w)) f w = f (read_users (database w)) w"
  by (simp add: act_bind_def)

lemma send_safe_apply:
  "send_safe chat_id txt w = (Inr (), w\<lparr>sent := sent w @ [(chat_id, expand_escapes txt)]\<rparr>)"
  by (simp add: send_safe_def)

lemma act_bind_send_safe [simp]:
  "act_bind (send_safe chat_id txt) f w = f () (w\<lparr>sent := sent w @ [(chat_id, expand_escapes txt)]\<rparr>)"
  by (simp add: act_bind_def send_safe_apply)

lemma users_handler_apply:
  "f (database w) = (r, db) \<Longrightarrow> users_handler f w = (r, w\<lparr>database := db\<rparr>)"
  by (simp add: users_handler_def)

lemma act_bind_users_handler:
  "f (database w) = (Inr x, db) \<Longrightarrow> act_bind (users_handler f) g w = g x (w\<lparr>database := db\<rparr>)"
  by (simp add: act_bind_def users_handler_def)

lemma act_bind_get_user_by_id:
  "get_user_by_id uid (database w) = (Inr x, db) \<Longrightarrow>
     act_bind (users_handler (get_user_by_id uid)) g w = g x (w\<lparr>database := db\<rparr>)"
  by (simp add: act_bind_def users_handler_def)

lemma act_bind_save_user:
  "save_user ud (database w) = (Inr x, db) \<Longrightarrow>
     act_bind (users_handler (save_user ud)) g w = g x (w\<lparr>database := db\<rparr>)"
  by (simp add: act_bind_def users_handler_def)

lemma wf_user_fields:
  assumes "wf_user u"
  obtains i h n a b t where
    "u ''id'' = Some (PInt i)" "u ''username'' = Some (PStr h)" "u ''full_name'' = Some (PStr n)"
    "u ''admin'' = Some (PBool a)" "u ''banned'' = Some (PBool b)"
    "u ''messages_total'' = Some (PInt t)"
  using assms unfolding wf_user_def is_int_iff is_str_iff is_bool_iff by blast

lemma logging_warning_user_wf [simp]:
  "wf_user u \<Longrightarrow> act_bind (logging_warning_user u) f w = f () w"
  by (erule wf_user_fields)
     (simp add: logging_warning_user_def name_username_id_def getitem_def act_bind_def)

lemma act_bind_refresh:
  "refresh key nm u w = (Inr x, w') \<Longrightarrow> act_bind (refresh key nm u) f w = f x w'"
  by (simp add: act_bind_def)

lemma refresh_step:
  assumes "holds uid u (database w)" "key = ''username'' \<or> key = ''full_name''"
  shows "\<exists>db'.
      refresh key nm u w =
        (Inr (case nm of None \<Rightarrow> u | Some name \<Rightarrow> u(key \<mapsto> PStr name)), w\<lparr>database := db'\<rparr>) \<and>
      holds uid (case nm of None \<Rightarrow> u | Some name \<Rightarrow> u(key \<mapsto> PStr name)) db' \<and>
      frame uid (database w) db'"
proof (cases nm)
  case None
  with assms(1) show ?thesis by (intro exI [of _ "database w"]) (simp add: refresh_def)
next
  case (Some name)
  from assms(2) have key: "key \<noteq> ''id''" "key \<noteq> ''admin''" by auto
  from assms(1) have "wf_user u" by (simp add: holds_def)
  with assms(2) have wf: "wf_user (u(key \<mapsto> PStr name))"
    by (intro wf_user_upd) (auto simp: is_str_def)
  from save_user_wf [OF assms(1) wf key] obtain db' where
    s: "save_user (Some (u(key \<mapsto> PStr name))) (database w) = (Inr (), db')"
    and h: "holds uid (u(key \<mapsto> PStr name)) db'" "frame uid (database w) db'" by blast
  from Some h show ?thesis
    by (intro exI [of _ db']) (simp add: refresh_def act_bind_save_user [OF s])
qed

lemma banned_gate:
  assumes "u ''banned'' = Some (PBool b)"
  shows "act_bind (act_of (getitem u ''banned'')) (\<lambda>banned.
         act_bind (if truthy banned
                   then (let notice = strip bm
                         in if length notice > 0 then send_safe c notice else act_return ())
                   else act_return ()) (\<lambda>_. act_return u)) w =
         (Inr u, w\<lparr>sent := sent w @ (if b \<and> 0 < length (strip bm)
                                       then [(c, expand_escapes (strip bm))] else [])\<rparr>)"
  using assms by (simp add: getitem_def Let_def)

lemma user_check_get_wf:
  assumes "wf_store (database w)"
  shows "\<exists>u0 db0 db'.
      get_user_by_id (effective_chat_id upd) (database w) = (Inr u0, db0) \<and>
      user_check_get cfg upd w =
        (Inr (refreshed upd u0),
         w\<lparr>database := db', sent := sent w @ banned_notice cfg upd u0\<rparr>) \<and>
      holds (effective_chat_id upd) (refreshed upd u0) db' \<and>
      frame (effective_chat_id upd) (database w) db'"
proof -
  let ?cid = "effective_chat_id upd"
  from get_user_by_id_wf [OF assms, of ?cid] obtain u0 db0 where
    g: "get_user_by_id ?cid (database w) = (Inr u0, db0)" "holds ?cid u0 db0"
       "frame ?cid (database w) db0" by blast
  define nm1 where "nm1 = (case message upd of None \<Rightarrow> None | Some m \<Rightarrow> username m)"
  define nm2 where "nm2 = (case message upd of None \<Rightarrow> None | Some m \<Rightarrow> Some (full_name m))"
  define u1 where "u1 = (case nm1 of None \<Rightarrow> u0 | Some name \<Rightarrow> u0(''username'' \<mapsto> PStr name))"
  define u2 where "u2 = (case nm2 of None \<Rightarrow> u1 | Some name \<Rightarrow> u1(''full_name'' \<mapsto> PStr name))"
  let ?w0 = "w\<lparr>database := db0\<rparr>"
  from g(2) have h0: "holds ?cid u0 (database ?w0)" by simp
  from refresh_step [OF h0, of "''username''" nm1] obtain db1 where
    s1: "refresh ''username'' nm1 u0 ?w0 = (Inr u1, ?w0\<lparr>database := db1\<rparr>)"
      "holds ?cid u1 db1" "frame ?cid (database ?w0) db1"
    unfolding u1_def by blast
  let ?w1 = "w\<lparr>database := db1\<rparr>"
  from s1(2) have h1: "holds ?cid u1 (database ?w1)" by simp
  from refresh_step [OF h1, of "''full_name''" nm2] obtain db2 where
    s2: "refresh ''full_name'' nm2 u1 ?w1 = (Inr u2, ?w1\<lparr>database := db2\<rparr>)"
      "holds ?cid u2 db2" "frame ?cid (database ?w1) db2"
    unfolding u2_def by blast
  have u2: "u2 = refreshed upd u0"
    by (simp add: refreshed_def u2_def u1_def nm1_def nm2_def split: option.splits)
  from g(2) have wf0: "wf_user u0" by (simp add: holds_def)
  then obtain b where b: "u0 ''banned'' = Some (PBool b)"
    by (auto elim: wf_user_fields)
  then have b2: "u2 ''banned'' = Some (PBool b)"
    by (simp add: u2_def u1_def split: option.splits)
  have s1': "refresh ''username'' nm1 u0 ?w0 = (Inr u1, ?w1)"
    using s1(1) by simp
  have s2': "refresh ''full_name'' nm2 u1 ?w1 = (Inr u2, w\<lparr>database := db2\<rparr>)"
    using s2(1) by simp
  have fr: "frame ?cid (database w) db2"
    using g(3) s1(3) s2(3) by (auto intro: frame_trans)
  have "user_check_get cfg upd w =
        act_bind (users_handler (get_user_by_id ?cid)) (\<lambda>user.
        act_bind (refresh ''username'' nm1 user) (\<lambda>user.
        act_bind (refresh ''full_name'' nm2 user) (\<lambda>user.
        act_bind (act_of (getitem user ''banned'')) (\<lambda>banned.
        act_bind (if truthy banned
                  then (let notice = strip (banned_message cfg)
                        in if length notice > 0
                           then send_safe (PInt ?cid) notice
                           else act_return ())
                  else act_return ()) (\<lambda>_.
        act_return user))))) w"
    by (simp only: user_check_get_def Let_def nm1_def nm2_def)
  also have "\<dots> = (Inr u2, w\<lparr>database := db2, sent := sent w @ banned_notice cfg upd u0\<rparr>)"
    using b
    by (simp only: act_bind_get_user_by_id [OF g(1)] act_bind_refresh [OF s1'] act_bind_refresh [OF s2']
        banned_gate [of u2 b, OF b2]) (simp add: banned_notice_def)
  finally have run: "user_check_get cfg upd w =
        (Inr u2, w\<lparr>database := db2, sent := sent w @ banned_notice cfg upd u0\<rparr>)" .
  from run s2(2) fr g(1) show ?thesis
    unfolding u2 by blast
qed

section \<open>Claims on the user store\<close>

text \<open>
  C6. Calling \<open>get_user_by_id\<close> twice with the same id and no \<open>save_user\<close> in between
  gives the same profile: when the first call returns a profile, the second call, on
  the store the first one left, returns that profile and leaves the store as it is.
  When the id is absent, the first call returns the default profile and appends it to
  the store. The call returns a profile whenever every stored profile has an id.
\<close>

theorem get_user_by_id_idempotent:
  "(fst (get_user_by_id uid db) = Inr u \<longrightarrow>
      get_user_by_id uid (snd (get_user_by_id uid db)) = (Inr u, snd (get_user_by_id uid db)))
   \<and> (find_user uid (read_users db) = Inr None \<longrightarrow>
      get_user_by_id uid db = (Inr (new_user uid), save_json (read_users db @ [new_user uid])))
   \<and> ((\<forall>p \<in> set (read_users db). p ''id'' \<noteq> None) \<longrightarrow> (\<exists>p. fst (get_user_by_id uid db) = Inr p))"
proof (intro conjI impI)
  assume "fst (get_user_by_id uid db) = Inr u"
  then show "get_user_by_id uid (snd (get_user_by_id uid db)) = (Inr u, snd (get_user_by_id uid db))"
    by (rule get_user_by_id_twice)
next
  assume "find_user uid (read_users db) = Inr None"
  then show "get_user_by_id uid db = (Inr (new_user uid), save_json (read_users db @ [new_user uid]))"
    by (rule get_user_by_id_absent)
next
  assume "\<forall>p \<in> set (read_users db). p ''id'' \<noteq> None"
  from find_user_total [OF this, of uid] obtain r where r: "find_user uid (read_users db) = Inr r" ..
  show "\<exists>p. fst (get_user_by_id uid db) = Inr p"
  proof (cases r)
    case None
    with r get_user_by_id_absent [of uid db] show ?thesis by simp
  next
    case (Some p)
    with r get_user_by_id_present [of uid db p] show ?thesis by simp
  qed
qed

theorem get_user_by_id_idempotent_witness:
  "find_user 42 (read_users (Some [new_user 1])) = Inr None
   \<and> fst (get_user_by_id 42 (Some [new_user 1])) = Inr (new_user 42)
   \<and> get_user_by_id 42 (Some [new_user 1]) = (Inr (new_user 42), save_json [new_user 1, new_user 42])
   \<and> get_user_by_id 42 (snd (get_user_by_id 42 (Some [new_user 1]))) =
       (Inr (new_user 42), snd (get_user_by_id 42 (Some [new_user 1])))
   \<and> (\<exists>p. fst (get_user_by_id 42 (Some [new_user 1])) = Inr p)"
proof -
  have absent: "find_user 42 (read_users (Some [new_user 1])) = Inr None"
    by (simp add: getitem_def)
  have ids: "\<forall>p \<in> set (read_users (Some [new_user 1])). p ''id'' \<noteq> None"
    by simp
  from get_user_by_id_idempotent [of 42 "Some [new_user 1]" "new_user 42"] absent
  have created: "get_user_by_id 42 (Some [new_user 1]) =
      (Inr (new_user 42), save_json [new_user 1, new_user 42])"
    by simp
  then have first: "fst (get_user_by_id 42 (Some [new_user 1])) = Inr (new_user 42)"
    by simp
  from get_user_by_id_idempotent [of 42 "Some [new_user 1]" "new_user 42"] absent ids first created
  show ?thesis by blast
qed

text \<open>
  C8. If no two profiles of the store have the same id, the same holds after any
  \<open>save_user\<close> and after any \<open>get_user_by_id\<close>. Ids are compared as Python compares
  them. \<open>save_user\<close> writes the fields it is given into the first profile with that id
  (the index its loop finds), or appends the profile when the loop finds none.
\<close>

theorem ids_stay_unique:
  "unique_ids (read_users db) \<Longrightarrow>
     unique_ids (read_users (snd (save_user user_data db))) \<and>
     unique_ids (read_users (snd (get_user_by_id uid db))) \<and>
     (\<forall>ud r. user_data = Some ud \<and> find_index ud (read_users db) 0 = Inr r \<longrightarrow>
        read_users (snd (save_user user_data db)) =
          (if 0 \<le> r then (read_users db)[nat r := (read_users db ! nat r) ++ ud]
           else read_users db @ [ud]))"
proof (intro conjI allI impI)
  assume u: "unique_ids (read_users db)"
  from u show "unique_ids (read_users (snd (save_user user_data db)))"
    by (rule unique_ids_save_user)
  from u show "unique_ids (read_users (snd (get_user_by_id uid db)))"
    by (rule unique_ids_get_user_by_id)
next
  fix ud r
  assume "user_data = Some ud \<and> find_index ud (read_users db) 0 = Inr r"
  then show "read_users (snd (save_user user_data db)) =
          (if 0 \<le> r then (read_users db)[nat r := (read_users db ! nat r) ++ ud]
           else read_users db @ [ud])"
    by (simp add: save_user_def Let_def)
qed

theorem ids_stay_unique_witness:
  "unique_ids (read_users (Some [new_user 1, new_user 42]))
   \<and> unique_ids (read_users (snd (save_user (Some ((new_user 42)(''banned'' \<mapsto> PBool True)))
        (Some [new_user 1, new_user 42]))))
   \<and> unique_ids (read_users (snd (get_user_by_id 7 (Some [new_user 1, new_user 42]))))
   \<and> find_index ((new_user 42)(''banned'' \<mapsto> PBool True)) (read_users (Some [new_user 1, new_user 42])) 0 = Inr 1
   \<and> read_users (snd (save_user (Some ((new_user 42)(''banned'' \<mapsto> PBool True)))
        (Some [new_user 1, new_user 42]))) =
      [new_user 1, new_user 42 ++ (new_user 42)(''banned'' \<mapsto> PBool True)]"
proof -
  let ?db = "Some [new_user 1, new_user 42]"
  let ?ud = "(new_user 42)(''banned'' \<mapsto> PBool True)"
  have u: "unique_ids (read_users ?db)"
    by (simp add: unique_ids_def)
  have i: "find_index ?ud (read_users ?db) 0 = Inr 1"
    by (simp add: getitem_def)
  from ids_stay_unique [OF u, of "Some ?ud" 7] i
  have "read_users (snd (save_user (Some ?ud) ?db)) =
      (if (0::int) \<le> 1 then (read_users ?db)[nat 1 := (read_users ?db ! nat 1) ++ ?ud]
       else read_users ?db @ [?ud])"
    by blast
  then have m: "read_users (snd (save_user (Some ?ud) ?db)) = [new_user 1, new_user 42 ++ ?ud]"
    by simp
  from ids_stay_unique [OF u, of "Some ?ud" 7] u i m show ?thesis by blast
qed

text \<open>
  C10. \<open>save_user\<close> with None returns normally and leaves the store as it is.
\<close>

theorem save_user_None: "save_user None db = (Inr (), db)"
  by (simp add: save_user_def)

section \<open>Running the handlers\<close>

text \<open>Text without a backslash passes the escape replacement unchanged.\<close>

lemma replace_nonempty_append:
  "old \<noteq> [] \<Longrightarrow> hd old \<notin> set a \<Longrightarrow>
     replace_nonempty old new (a @ b) = a @ replace_nonempty old new b"
proof (induction a)
  case Nil
  then show ?case by simp
next
  case (Cons c cs)
  from Cons.prems have "take (length old) (c # cs @ b) \<noteq> old"
    by (cases old) auto
  with Cons show ?case by simp
qed

lemma replace_append:
  "old \<noteq> [] \<Longrightarrow> hd old \<notin> set a \<Longrightarrow> replace (a @ b) old new = a @ replace b old new"
  by (simp add: replace_def replace_nonempty_append)

lemma expand_escapes_append:
  "CHR 0x5C \<notin> set a \<Longrightarrow> expand_escapes (a @ b) = a @ expand_escapes b"
  by (simp add: expand_escapes_def replace_append backslash_n_def backslash_t_def)

lemma expand_escapes_plain:
  "CHR 0x5C \<notin> set a \<Longrightarrow> expand_escapes a = a"
  using expand_escapes_append [of a "[]"]
  by (simp add: expand_escapes_def replace_def backslash_n_def backslash_t_def)

lemma digit_char_plain: "d < 10 \<Longrightarrow> digit_char d \<noteq> CHR 0x5C"
proof -
  assume "d < 10"
  then have "d \<in> {0, 1, 2, 3, 4, 5, 6, 7, 8, 9}" by auto
  then show ?thesis by (auto simp: digit_char_def)
qed

lemma str_nat_plain: "CHR 0x5C \<notin> set (str_nat n)"
proof (induction n rule: str_nat.induct)
  case (1 n)
  show ?case
  proof (cases "n < 10")
    case True
    with digit_char_plain [of n] show ?thesis
      by (subst str_nat.simps) auto
  next
    case False
    with 1 have "CHR 0x5C \<notin> set (str_nat (n div 10))" by simp
    moreover have "digit_char (n mod 10) \<noteq> CHR 0x5C"
      by (rule digit_char_plain) simp
    ultimately show ?thesis
      using False by (subst str_nat.simps) auto
  qed
qed

lemma str_int_plain: "CHR 0x5C \<notin> set (str_int i)"
  by (simp add: str_int_def str_nat_plain)

lemma refreshed_other [simp]:
  "k \<noteq> ''username'' \<Longrightarrow> k \<noteq> ''full_name'' \<Longrightarrow> refreshed upd u k = u k"
  by (simp add: refreshed_def split: option.splits)

lemma prologue:
  assumes "wf_store (database w)"
    and "fst (get_user_by_id (effective_chat_id upd) (database w)) = Inr u0"
  shows "\<exists>db'.
      user_check_get cfg upd w =
        (Inr (refreshed upd u0),
         w\<lparr>database := db', sent := sent w @ banned_notice cfg upd u0\<rparr>) \<and>
      holds (effective_chat_id upd) (refreshed upd u0) db' \<and>
      frame (effective_chat_id upd) (database w) db'"
proof -
  from user_check_get_wf [OF assms(1), of upd cfg] obtain u db0 db' where
    "get_user_by_id (effective_chat_id upd) (database w) = (Inr u, db0)"
    "user_check_get cfg upd w =
        (Inr (refreshed upd u), w\<lparr>database := db', sent := sent w @ banned_notice cfg upd u\<rparr>)"
    "holds (effective_chat_id upd) (refreshed upd u) db'"
    "frame (effective_chat_id upd) (database w) db'"
    by blast
  with assms(2) show ?thesis by auto
qed

lemma act_bind_user_check_get:
  "user_check_get cfg upd w = (Inr u, w') \<Longrightarrow> act_bind (user_check_get cfg upd) f w = f u w'"
  by (simp add: act_bind_def)

lemma holds_fields:
  assumes "holds uid u db"
  obtains h n a b t where
    "u ''id'' = Some (PInt uid)" "u ''username'' = Some (PStr h)" "u ''full_name'' = Some (PStr n)"
    "u ''admin'' = Some (PBool a)" "u ''banned'' = Some (PBool b)"
    "u ''messages_total'' = Some (PInt t)" "wf_user u"
proof -
  from assms have wf: "wf_user u" and i: "u ''id'' = Some (PInt uid)"
    by (simp_all add: holds_def)
  from wf show ?thesis
    by (rule wf_user_fields) (use i wf that in blast)
qed

text \<open>The relay loop on well-formed profiles: one send for each admin, in store order.\<close>

lemma broadcast_wf:
  "list_all wf_user users \<Longrightarrow>
     broadcast users txt w =
       (Inr (), w\<lparr>sent := sent w @
          map (\<lambda>i. (i, expand_escapes txt)) (admin_ids users)\<rparr>)"
proof (induction users arbitrary: w)
  case Nil
  then show ?case by (simp add: admin_ids_def)
next
  case (Cons a users)
  from Cons.prems have wf: "wf_user a" and rest: "list_all wf_user users" by simp_all
  from wf obtain i b where f: "a ''id'' = Some (PInt i)" "a ''admin'' = Some (PBool b)"
    by (auto elim: wf_user_fields)
  show ?case
  proof (cases b)
    case True
    with f wf show ?thesis
      by (simp add: getitem_def Cons.IH [OF rest] admin_ids_def)
  next
    case False
    with f wf show ?thesis
      by (simp add: getitem_def Cons.IH [OF rest] admin_ids_def)
  qed
qed

text \<open>A banned sender: every handler with the gate stops after the prologue.\<close>

lemma gate_banned:
  assumes "user_check_get cfg upd w = (Inr u, w')" "wf_user u" "u ''banned'' = Some (PBool True)"
  shows "act_bind (user_check_get cfg upd) (\<lambda>user.
           act_bind (logging_warning_user user) (\<lambda>_.
           act_bind (act_of (getitem user ''banned'')) (\<lambda>banned.
           if truthy banned then act_return () else rest user))) w = (Inr (), w')"
  using assms(2,3)
  by (simp add: act_bind_user_check_get [OF assms(1)] getitem_def)

lemma dispatch_banned:
  assumes "user_check_get cfg upd w = (Inr u, w')" "wf_user u" "u ''banned'' = Some (PBool True)"
    and "ev \<noteq> ChatId" "ev \<noteq> UnknownCommand"
  shows "dispatch ev cfg upd args w = (Inr (), w')"
proof (cases ev)
  case Start
  then show ?thesis
    by (simp add: bot_command_start_def gate_banned [OF assms(1-3)])
next
  case ChatId
  with assms(4) show ?thesis by simp
next
  case TextMessage
  then show ?thesis
    by (simp add: bot_message_def gate_banned [OF assms(1-3)])
next
  case Users
  then show ?thesis
    by (simp add: bot_command_users_def gate_banned [OF assms(1-3)])
next
  case Ban
  then show ?thesis
    by (simp add: bot_command_ban_def bot_command_ban_unban_def gate_banned [OF assms(1-3)])
next
  case Unban
  then show ?thesis
    by (simp add: bot_command_unban_def bot_command_ban_unban_def gate_banned [OF assms(1-3)])
next
  case Restart
  then show ?thesis
    by (simp add: bot_command_restart_def gate_banned [OF assms(1-3)])
next
  case ResetMessages
  then show ?thesis
    by (simp add: bot_command_resetmessages_def gate_banned [OF assms(1-3)])
next
  case UnknownCommand
  with assms(5) show ?thesis by simp
qed

lemma chatid_run:
  assumes "user_check_get cfg upd w = (Inr u, w')" "wf_user u" "u ''id'' = Some (PInt uid)"
  shows "bot_command_chatid cfg upd w =
           (Inr (), w'\<lparr>sent := sent w' @ [(PInt uid, expand_escapes (str_int uid))]\<rparr>)"
  using assms(2,3)
  by (simp add: bot_command_chatid_def act_bind_user_check_get [OF assms(1)] getitem_def
      send_safe_apply)

section \<open>Running the text handler\<close>

lemma message_prefix_wf:
  assumes "u ''id'' = Some (PInt uid)" "u ''username'' = Some (PStr h)"
    "u ''full_name'' = Some (PStr n)"
  shows "message_prefix u =
           Inr (n @ '' (@'' @ h @ '') ('' @ str_int uid @ '')'' @ newline @ newline)"
  using assms by (simp add: message_prefix_def name_username_id_def getitem_def)

lemma act_bind_broadcast_wf:
  "list_all wf_user users \<Longrightarrow>
     act_bind (broadcast users txt) f w =
       f () (w\<lparr>sent := sent w @
          map (\<lambda>i. (i, expand_escapes txt)) (admin_ids users)\<rparr>)"
  by (simp add: act_bind_def broadcast_wf)

lemma bot_message_run:
  assumes pro: "user_check_get cfg upd w = (Inr u, w1)"
    and h: "holds uid u (database w1)"
    and f: "u ''banned'' = Some (PBool False)" "u ''admin'' = Some (PBool False)"
      "u ''messages_total'' = Some (PInt t)"
      "u ''username'' = Some (PStr handle)" "u ''full_name'' = Some (PStr name)"
    and m: "message upd = Some m"
  shows "\<exists>db'.
      bot_message cfg upd w =
        (Inr (),
         w1\<lparr>database := db',
            sent := sent w1 @
              (if t + 1 \<le> user_max_messages cfg
               then map (\<lambda>i. (i, expand_escapes (name @ '' (@'' @ handle @ '') ('' @ str_int uid @ '')''
                                     @ newline @ newline @ msg_text m)))
                      (admin_ids (read_users db'))
                    @ [(PInt uid, expand_escapes (confirmation_message cfg))]
               else [])\<rparr>) \<and>
      holds uid (u(''messages_total'' \<mapsto> PInt (t + 1))) db' \<and>
      frame uid (database w1) db'"
proof -
  let ?u' = "u(''messages_total'' \<mapsto> PInt (t + 1))"
  from h have wf: "wf_user u" and i: "u ''id'' = Some (PInt uid)"
    by (simp_all add: holds_def)
  from wf have wf': "wf_user ?u'"
    by (intro wf_user_upd) (simp_all add: is_int_def)
  from save_user_wf [OF h wf'] obtain db' where
    s: "save_user (Some ?u') (database w1) = (Inr (), db')"
    and h': "holds uid ?u' db'" and fr: "frame uid (database w1) db'"
    by auto
  from h' have wfs: "list_all wf_user (read_users db')"
    by (simp add: holds_def wf_store_def)
  have pre: "message_prefix ?u' =
      Inr (name @ '' (@'' @ handle @ '') ('' @ str_int uid @ '')'' @ newline @ newline)"
    using i f by (intro message_prefix_wf) simp_all
  have "bot_message cfg upd w =
        (Inr (),
         w1\<lparr>database := db',
            sent := sent w1 @
              (if t + 1 \<le> user_max_messages cfg
               then map (\<lambda>i. (i, expand_escapes (name @ '' (@'' @ handle @ '') ('' @ str_int uid @ '')''
                                     @ newline @ newline @ msg_text m)))
                      (admin_ids (read_users db'))
                    @ [(PInt uid, expand_escapes (confirmation_message cfg))]
               else [])\<rparr>)"
    using wf f i m
    by (simp add: bot_message_def act_bind_user_check_get [OF pro] getitem_def
        act_bind_save_user [OF s] pre act_bind_broadcast_wf [OF wfs] send_safe_apply)
  with h' fr show ?thesis by blast
qed

section \<open>Running the ban and unban handlers\<close>

lemma ban_unban_no_argument:
  assumes pro: "user_check_get cfg upd w = (Inr u, w1)"
    and wf: "wf_user u"
    and f: "u ''banned'' = Some (PBool False)" "u ''admin'' = Some (PBool True)"
  shows "bot_command_ban_unban ban cfg upd [] w = (Inr (), w1)"
  using wf f
  by (simp add: bot_command_ban_unban_def act_bind_user_check_get [OF pro] getitem_def)

lemma ban_unban_parse_failure:
  assumes pro: "user_check_get cfg upd w = (Inr u, w1)"
    and wf: "wf_user u" and i: "u ''id'' = Some (PInt uid)"
    and f: "u ''banned'' = Some (PBool False)" "u ''admin'' = Some (PBool True)"
    and a: "py_int a = Inl e"
  shows "bot_command_ban_unban ban cfg upd (a # rest) w =
           (Inr (), w1\<lparr>sent := sent w1 @ [(PInt uid, expand_escapes e)]\<rparr>)"
  using wf f i a
  by (simp add: bot_command_ban_unban_def act_bind_user_check_get [OF pro] getitem_def
      send_safe_apply)

lemma ban_unban_success:
  assumes pro: "user_check_get cfg upd w = (Inr u, w1)"
    and h: "holds uid u (database w1)"
    and f: "u ''banned'' = Some (PBool False)" "u ''admin'' = Some (PBool True)"
    and a: "py_int a = Inr t"
  shows "\<exists>p db'.
      fst (get_user_by_id t (database w1)) = Inr p \<and>
      bot_command_ban_unban ban cfg upd (a # rest) w =
        (Inr (),
         w1\<lparr>database := db',
            sent := sent w1 @
              [(PInt uid, expand_escapes (if ban then ban_confirmation_message cfg
                                         else unban_confirmation_message cfg))]\<rparr>) \<and>
      holds t (p(''banned'' \<mapsto> PBool ban)) db' \<and>
      frame t (database w1) db'"
proof -
  from h have wf: "wf_user u" and i: "u ''id'' = Some (PInt uid)"
    and wfs: "wf_store (database w1)"
    by (simp_all add: holds_def)
  from get_user_by_id_wf [OF wfs, of t] obtain p db0 where
    g: "get_user_by_id t (database w1) = (Inr p, db0)"
    and hp: "holds t p db0" and fr0: "frame t (database w1) db0"
    by blast
  let ?p' = "p(''banned'' \<mapsto> PBool ban)"
  from hp have "wf_user p" by (simp add: holds_def)
  then have wf': "wf_user ?p'"
    by (intro wf_user_upd) (simp_all add: is_bool_def)
  from save_user_wf [OF hp wf'] obtain db' where
    s: "save_user (Some ?p') db0 = (Inr (), db')"
    and hp': "holds t ?p' db'" and fr1: "frame t db0 db'"
    by auto
  from s have s': "save_user (Some ?p') (database (w1\<lparr>database := db0\<rparr>)) = (Inr (), db')"
    by simp
  have "bot_command_ban_unban ban cfg upd (a # rest) w =
        (Inr (),
         w1\<lparr>database := db',
            sent := sent w1 @
              [(PInt uid, expand_escapes (if ban then ban_confirmation_message cfg
                                         else unban_confirmation_message cfg))]\<rparr>)"
    using wf f i a
    by (simp add: bot_command_ban_unban_def act_bind_user_check_get [OF pro] getitem_def
        act_bind_get_user_by_id [OF g] act_bind_save_user [OF s'] send_safe_apply)
  moreover from fr0 fr1 have "frame t (database w1) db'" by (rule frame_trans)
  moreover from g have "fst (get_user_by_id t (database w1)) = Inr p" by simp
  ultimately show ?thesis using hp' by blast
qed

section \<open>Decimal text of integers\<close>

text \<open>The decimal text of an integer is read back by \<open>int\<close> as that integer.\<close>

lemma digit_char_cases:
  assumes "d < 10"
  shows "is_digit (digit_char d) \<and> digit_val (digit_char d) = d \<and> \<not> is_space (digit_char d)
         \<and> digit_char d \<noteq> CHR ''-'' \<and> digit_char d \<noteq> CHR ''+''"
proof -
  from assms have "d \<in> {0, 1, 2, 3, 4, 5, 6, 7, 8, 9}" by auto
  then show ?thesis
    by (auto simp: digit_char_def is_digit_def digit_val_def is_space_def)
qed

lemma parse_digits_snoc:
  "list_all is_digit s \<Longrightarrow> is_digit c \<Longrightarrow>
     parse_digits acc (s @ [c]) =
       map_option (\<lambda>v. 10 * v + digit_val c) (parse_digits acc s)"
proof (induction acc s rule: parse_digits.induct)
  case (1 acc)
  then show ?case by simp
next
  case (2 acc d)
  then show ?case by simp
next
  case (3 acc d e ds)
  then show ?case by simp
qed

lemma str_nat_digits: "list_all is_digit (str_nat n) \<and> str_nat n \<noteq> []"
proof (induction n rule: str_nat.induct)
  case (1 n)
  show ?case
  proof (cases "n < 10")
    case True
    with digit_char_cases [of n] show ?thesis
      by (subst (1 2) str_nat.simps) simp
  next
    case False
    with 1 have "list_all is_digit (str_nat (n div 10))" by simp
    moreover have "is_digit (digit_char (n mod 10))"
      using digit_char_cases [of "n mod 10"] by simp
    ultimately show ?thesis
      using False by (subst (1 2) str_nat.simps) simp
  qed
qed

lemma parse_digits_str_nat: "parse_digits 0 (str_nat n) = Some n"
proof (induction n rule: str_nat.induct)
  case (1 n)
  show ?case
  proof (cases "n < 10")
    case True
    with digit_char_cases [of n] show ?thesis
      by (subst str_nat.simps) simp
  next
    case False
    with 1 have ih: "parse_digits 0 (str_nat (n div 10)) = Some (n div 10)" by simp
    have d: "is_digit (digit_char (n mod 10))" "digit_val (digit_char (n mod 10)) = n mod 10"
      using digit_char_cases [of "n mod 10"] by simp_all
    from str_nat_digits [of "n div 10"] have "list_all is_digit (str_nat (n div 10))" by simp
    from parse_digits_snoc [OF this d(1), of 0] ih d(2)
    have "parse_digits 0 (str_nat (n div 10) @ [digit_char (n mod 10)]) = Some n"
      by simp
    with False show ?thesis
      by (subst str_nat.simps) simp
  qed
qed

lemma parse_nat_str_nat: "parse_nat (str_nat n) = Some n"
proof -
  from str_nat_digits [of n] obtain c cs where s: "str_nat n = c # cs" "is_digit c"
    by (cases "str_nat n") auto
  with parse_digits_str_nat [of n] show ?thesis
    by (simp add: parse_nat_def)
qed

lemma strip_plain:
  assumes "s \<noteq> []" "\<not> is_space (hd s)" "\<not> is_space (last s)"
  shows "strip s = s"
proof -
  from assms(1,2) have a: "dropWhile is_space s = s"
    by (cases s) simp_all
  from assms(1,3) have "dropWhile is_space (rev s) = rev s"
    by (cases "rev s") (simp_all add: last_rev [symmetric] del: last_rev)
  with a show ?thesis by (simp add: strip_def)
qed

lemma is_digit_plain: "is_digit c \<Longrightarrow> \<not> is_space c \<and> c \<noteq> CHR ''-'' \<and> c \<noteq> CHR ''+''"
  by (auto simp: is_digit_def is_space_def)

lemma str_nat_ends: "is_digit (hd (str_nat n)) \<and> is_digit (last (str_nat n))"
proof -
  from str_nat_digits [of n] have "list_all is_digit (str_nat n)" "str_nat n \<noteq> []"
    by simp_all
  then show ?thesis
    by (simp add: list_all_iff)
qed

lemma py_int_str_int: "py_int (str_int i) = Inr i"
proof (cases "i < 0")
  case True
  let ?s = "CHR ''-'' # str_nat (nat (- i))"
  have minus: "\<not> is_space CHR ''-''"
    by (simp add: is_space_def)
  from str_nat_digits [of "nat (- i)"] str_nat_ends [of "nat (- i)"]
  have "\<not> is_space (last ?s)"
    by (simp add: is_digit_plain)
  with minus have "strip ?s = ?s" by (intro strip_plain) simp_all
  with True parse_nat_str_nat [of "nat (- i)"] show ?thesis
    by (simp add: py_int_def str_int_def)
next
  case False
  let ?s = "str_nat (nat i)"
  from str_nat_digits [of "nat i"] obtain c cs where s: "?s = c # cs"
    by (cases ?s) auto
  from str_nat_ends [of "nat i"] have e: "\<not> is_space (hd ?s)" "\<not> is_space (last ?s)"
    by (simp_all add: is_digit_plain)
  from str_nat_digits [of "nat i"] e have st: "strip ?s = ?s" by (intro strip_plain) simp_all
  from str_nat_ends [of "nat i"] s have "c \<noteq> CHR ''-''" "c \<noteq> CHR ''+''"
    by (auto dest: is_digit_plain)
  with False st s parse_nat_str_nat [of "nat i"] show ?thesis
    by (simp add: py_int_def str_int_def)
qed

lemma str_nat_no_leading_zero: "n \<noteq> 0 \<Longrightarrow> hd (str_nat n) \<noteq> CHR ''0''"
proof (induction n rule: str_nat.induct)
  case (1 n)
  show ?case
  proof (cases "n < 10")
    case True
    with 1(2) have "n \<in> {1, 2, 3, 4, 5, 6, 7, 8, 9}" by auto
    then have "digit_char n \<noteq> CHR ''0''"
      by (auto simp: digit_char_def)
    with True show ?thesis
      by (subst str_nat.simps) simp
  next
    case False
    then have "n div 10 \<noteq> 0" by simp
    with 1(1) False have "hd (str_nat (n div 10)) \<noteq> CHR ''0''" by simp
    with str_nat_digits [of "n div 10"] False show ?thesis
      by (subst str_nat.simps) simp
  qed
qed

text \<open>
  \<open>str_int\<close> writes the canonical decimal numeral: a minus sign for a negative
  integer, then digits only, with no leading zero except for zero itself.
\<close>

lemma str_int_decimal:
  "str_int i = (if i < 0 then [CHR ''-''] else []) @ str_nat (nat \<bar>i\<bar>) \<and>
   list_all is_digit (str_nat (nat \<bar>i\<bar>)) \<and> str_nat (nat \<bar>i\<bar>) \<noteq> [] \<and>
   (hd (str_nat (nat \<bar>i\<bar>)) = CHR ''0'' \<longleftrightarrow> i = 0)"
proof -
  have zero: "str_nat 0 = ''0''"
    by (subst str_nat.simps) (simp add: digit_char_def)
  have "hd (str_nat (nat \<bar>i\<bar>)) = CHR ''0'' \<longleftrightarrow> i = 0"
    using str_nat_no_leading_zero [of "nat \<bar>i\<bar>"] zero by auto
  with str_nat_digits [of "nat \<bar>i\<bar>"] show ?thesis
    by (simp add: str_int_def)
qed

section \<open>Claims on the ban gate\<close>

lemma example_wf: "wf_store (database example_bot)"
  by (simp add: example_bot_def wf_store_def example_admin_def example_sender_def
      example_banned_def wf_user_def new_user_def is_int_def is_str_def is_bool_def)

lemma strip_example: "strip '' You are banned '' = ''You are banned''"
  by code_simp

text \<open>
  C2. For a banned sender, every handler but that of \<open>/chatid\<close> ends in the state its
  prologue left: the state before with the sender's names refreshed in the store and,
  when the stripped notice is not empty, the banned notice appended to the messages
  sent. Nothing else is sent, the flag and the threads are as before, and the lookup of
  every other id is as before. The notice is stripped of the whitespace of \<open>str.strip\<close>.
  \<open>/chatid\<close>, for every sender, sends the sender's chat id as text after what the
  prologue sent: the canonical decimal numeral (a minus sign when negative, then digits
  with no leading zero), which \<open>int\<close> reads back as the chat id. A command without a
  handler does nothing.
\<close>

theorem banned_sender_gate:
  assumes "wf_store (database w)"
    and "fst (get_user_by_id (effective_chat_id upd) (database w)) = Inr u0"
  shows "(u0 ''banned'' = Some (PBool True) \<longrightarrow>
            (ev \<noteq> ChatId \<and> ev \<noteq> UnknownCommand \<longrightarrow>
               dispatch ev cfg upd args w = (Inr (), snd (user_check_get cfg upd w))) \<and>
            (\<exists>db'. snd (user_check_get cfg upd w) =
                     w\<lparr>database := db',
                       sent := sent w @
                         (if 0 < length (strip (banned_message cfg))
                          then [(PInt (effective_chat_id upd),
                                 expand_escapes (strip (banned_message cfg)))]
                          else [])\<rparr> \<and>
                   find_user (effective_chat_id upd) (read_users db') =
                     Inr (Some (refreshed upd u0)) \<and>
                   frame (effective_chat_id upd) (database w) db'))
       \<and> dispatch ChatId cfg upd args w =
           (Inr (), (snd (user_check_get cfg upd w))
              \<lparr>sent := sent (snd (user_check_get cfg upd w)) @
                 [(PInt (effective_chat_id upd), str_int (effective_chat_id upd))]\<rparr>)
       \<and> str_int (effective_chat_id upd) =
           (if effective_chat_id upd < 0 then [CHR ''-''] else []) @
           str_nat (nat \<bar>effective_chat_id upd\<bar>)
       \<and> list_all is_digit (str_nat (nat \<bar>effective_chat_id upd\<bar>))
       \<and> str_nat (nat \<bar>effective_chat_id upd\<bar>) \<noteq> []
       \<and> (hd (str_nat (nat \<bar>effective_chat_id upd\<bar>)) = CHR ''0'') = (effective_chat_id upd = 0)
       \<and> py_int (str_int (effective_chat_id upd)) = Inr (effective_chat_id upd)
       \<and> sent (snd (user_check_get cfg upd w)) = sent w @ banned_notice cfg upd u0
       \<and> dispatch UnknownCommand cfg upd args w = (Inr (), w)"
proof -
  let ?cid = "effective_chat_id upd"
  from prologue [OF assms, of cfg] obtain db' where
    pro: "user_check_get cfg upd w =
        (Inr (refreshed upd u0), w\<lparr>database := db', sent := sent w @ banned_notice cfg upd u0\<rparr>)"
    and h: "holds ?cid (refreshed upd u0) db'"
    and fr: "frame ?cid (database w) db'"
    by blast
  from h have wf: "wf_user (refreshed upd u0)" and i: "refreshed upd u0 ''id'' = Some (PInt ?cid)"
    and found: "find_user ?cid (read_users db') = Inr (Some (refreshed upd u0))"
    by (simp_all add: holds_def)
  have gate: "dispatch ev cfg upd args w = (Inr (), snd (user_check_get cfg upd w))"
    if "u0 ''banned'' = Some (PBool True)" "ev \<noteq> ChatId" "ev \<noteq> UnknownCommand"
  proof -
    from that(1) have "refreshed upd u0 ''banned'' = Some (PBool True)" by simp
    from dispatch_banned [OF pro wf this that(2,3)] pro show ?thesis by simp
  qed
  have state: "\<exists>db'. snd (user_check_get cfg upd w) =
                     w\<lparr>database := db',
                       sent := sent w @
                         (if 0 < length (strip (banned_message cfg))
                          then [(PInt ?cid, expand_escapes (strip (banned_message cfg)))]
                          else [])\<rparr> \<and>
                   find_user ?cid (read_users db') = Inr (Some (refreshed upd u0)) \<and>
                   frame ?cid (database w) db'"
    if "u0 ''banned'' = Some (PBool True)"
    using that pro found fr by (intro exI [of _ db']) (simp add: banned_notice_def)
  have chat: "dispatch ChatId cfg upd args w =
           (Inr (), (snd (user_check_get cfg upd w))
              \<lparr>sent := sent (snd (user_check_get cfg upd w)) @ [(PInt ?cid, str_int ?cid)]\<rparr>)"
    using chatid_run [OF pro wf i] pro by (simp add: expand_escapes_plain str_int_plain)
  from pro have notice: "sent (snd (user_check_get cfg upd w)) = sent w @ banned_notice cfg upd u0"
    by simp
  have unknown: "dispatch UnknownCommand cfg upd args w = (Inr (), w)"
    by simp
  note decimal = str_int_decimal [of ?cid]
  from decimal have d1: "str_int ?cid = (if ?cid < 0 then [CHR ''-''] else []) @ str_nat (nat \<bar>?cid\<bar>)"
    and d2: "list_all is_digit (str_nat (nat \<bar>?cid\<bar>))"
    and d3: "str_nat (nat \<bar>?cid\<bar>) \<noteq> []"
    and d4: "(hd (str_nat (nat \<bar>?cid\<bar>)) = CHR ''0'') = (?cid = 0)"
    by blast+
  show ?thesis
    apply (intro conjI impI)
             apply (elim conjE, rule gate, assumption+)
            apply (erule state)
           apply (rule chat)
          apply (rule d1)
         apply (rule d2)
        apply (rule d3)
       apply (rule d4)
      apply (rule py_int_str_int)
     apply (rule notice)
    apply (rule unknown)
    done
qed

lemma str_int_66: "str_int 66 = ''66''"
  by code_simp

lemma str_int_negative: "str_int (- 100) = ''-100''"
  by code_simp

lemma strip_blank: "strip [CHR 0xA0, CHR '' '', CHR 0x85, CHR 0x09] = []"
  by code_simp

theorem banned_sender_gate_witness:
  "wf_store (database example_bot)
   \<and> fst (get_user_by_id 66 (database example_bot)) = Inr example_banned
   \<and> example_banned ''banned'' = Some (PBool True)
   \<and> dispatch TextMessage example_config (update_from 66 ''mal'' ''Mallory'' ''hello'') [] example_bot =
       (Inr (), snd (user_check_get example_config (update_from 66 ''mal'' ''Mallory'' ''hello'') example_bot))
   \<and> dispatch Start example_config (update_from 66 ''mal'' ''Mallory'' ''hello'') [] example_bot =
       (Inr (), snd (user_check_get example_config (update_from 66 ''mal'' ''Mallory'' ''hello'') example_bot))
   \<and> sent (snd (user_check_get example_config (update_from 66 ''mal'' ''Mallory'' ''hello'') example_bot)) =
       [(PInt 66, ''You are banned'')]
   \<and> sent (snd (dispatch ChatId example_config (update_from 66 ''mal'' ''Mallory'' ''hello'') [] example_bot)) =
       [(PInt 66, ''You are banned''), (PInt 66, ''66'')]
   \<and> py_int ''66'' = Inr 66
   \<and> sent (snd (dispatch Start
        (example_config\<lparr>banned_message := [CHR 0xA0, CHR '' '', CHR 0x85, CHR 0x09]\<rparr>)
        (update_from 66 ''mal'' ''Mallory'' ''hello'') [] example_bot)) = []
   \<and> sent (snd (dispatch ChatId
        (example_config\<lparr>banned_message := [CHR 0xA0, CHR '' '', CHR 0x85, CHR 0x09]\<rparr>)
        (update_from 66 ''mal'' ''Mallory'' ''hello'') [] example_bot)) = [(PInt 66, ''66'')]
   \<and> fst (get_user_by_id (- 100) (database example_bot)) = Inr (new_user (- 100))
   \<and> sent (snd (dispatch ChatId example_config (update_from (- 100) ''grp'' ''Group'' ''/chatid'')
        [] example_bot)) = [(PInt (- 100), ''-100'')]
   \<and> py_int ''-100'' = Inr (- 100)"
proof -
  let ?upd = "update_from 66 ''mal'' ''Mallory'' ''hello''"
  let ?blank = "example_config\<lparr>banned_message := [CHR 0xA0, CHR '' '', CHR 0x85, CHR 0x09]\<rparr>"
  have cid: "effective_chat_id ?upd = 66" by (simp add: update_from_def)
  have sender: "fst (get_user_by_id (effective_chat_id ?upd) (database example_bot)) = Inr example_banned"
    by (simp add: example_bot_def get_user_by_id_def example_admin_def example_sender_def
        example_banned_def getitem_def update_from_def)
  have banned: "example_banned ''banned'' = Some (PBool True)"
    by (simp add: example_banned_def)
  have notice: "banned_notice example_config ?upd example_banned = [(PInt 66, ''You are banned'')]"
    by (simp add: banned_notice_def banned example_config_def strip_example cid expand_escapes_plain)
  have quiet: "banned_notice ?blank ?upd example_banned = []"
    by (simp add: banned_notice_def strip_blank)
  have none: "sent example_bot = []"
    by (simp add: example_bot_def)
  note t = banned_sender_gate [OF example_wf sender, where cfg = example_config and args = "[]"]
  note t' = banned_sender_gate [OF example_wf sender, where cfg = ?blank and args = "[]"]
  from t [where ev = TextMessage] banned
  have a: "dispatch TextMessage example_config ?upd [] example_bot =
       (Inr (), snd (user_check_get example_config ?upd example_bot))" by simp
  from t [where ev = Start] banned
  have b: "dispatch Start example_config ?upd [] example_bot =
       (Inr (), snd (user_check_get example_config ?upd example_bot))" by simp
  from t [where ev = Start]
  have "sent (snd (user_check_get example_config ?upd example_bot)) =
      sent example_bot @ banned_notice example_config ?upd example_banned"
    by blast
  then have c: "sent (snd (user_check_get example_config ?upd example_bot)) =
      [(PInt 66, ''You are banned'')]"
    by (simp only: notice none append_Nil)
  from t [where ev = Start]
  have "dispatch ChatId example_config ?upd [] example_bot =
           (Inr (), (snd (user_check_get example_config ?upd example_bot))
              \<lparr>sent := sent (snd (user_check_get example_config ?upd example_bot)) @
                 [(PInt (effective_chat_id ?upd), str_int (effective_chat_id ?upd))]\<rparr>)"
    by blast
  then have d: "sent (snd (dispatch ChatId example_config ?upd [] example_bot)) =
       [(PInt 66, ''You are banned''), (PInt 66, ''66'')]"
    by (simp add: c cid str_int_66)
  from t [where ev = Start] have "py_int (str_int (effective_chat_id ?upd)) = Inr (effective_chat_id ?upd)"
    by blast
  then have e: "py_int ''66'' = Inr 66"
    by (simp add: cid str_int_66)
  from t' [where ev = Start]
  have "sent (snd (user_check_get ?blank ?upd example_bot)) =
      sent example_bot @ banned_notice ?blank ?upd example_banned"
    by blast
  then have f0: "sent (snd (user_check_get ?blank ?upd example_bot)) = []"
    by (simp only: quiet none append_Nil)
  from t' [where ev = Start] banned
  have "dispatch Start ?blank ?upd [] example_bot = (Inr (), snd (user_check_get ?blank ?upd example_bot))"
    by simp
  with f0 have f: "sent (snd (dispatch Start ?blank ?upd [] example_bot)) = []"
    by simp
  from t' [where ev = Start]
  have "dispatch ChatId ?blank ?upd [] example_bot =
           (Inr (), (snd (user_check_get ?blank ?upd example_bot))
              \<lparr>sent := sent (snd (user_check_get ?blank ?upd example_bot)) @
                 [(PInt (effective_chat_id ?upd), str_int (effective_chat_id ?upd))]\<rparr>)"
    by blast
  then have g: "sent (snd (dispatch ChatId ?blank ?upd [] example_bot)) = [(PInt 66, ''66'')]"
    by (simp add: f0 cid str_int_66)
  let ?grp = "update_from (- 100) ''grp'' ''Group'' ''/chatid''"
  have gid: "effective_chat_id ?grp = - 100" by (simp add: update_from_def)
  have fresh: "fst (get_user_by_id (- 100) (database example_bot)) = Inr (new_user (- 100))"
    by (simp add: example_bot_def get_user_by_id_def create_user_def save_user_def read_users_def
        load_json_def save_json_def example_admin_def example_sender_def example_banned_def
        getitem_def new_user_def Let_def)
  then have fresh': "fst (get_user_by_id (effective_chat_id ?grp) (database example_bot)) =
      Inr (new_user (- 100))"
    by (simp only: gid)
  have calm: "banned_notice example_config ?grp (new_user (- 100)) = []"
    by (simp add: banned_notice_def new_user_def)
  note t'' = banned_sender_gate [OF example_wf fresh', where cfg = example_config and args = "[]"
      and ev = Start]
  from t''
  have "sent (snd (user_check_get example_config ?grp example_bot)) =
      sent example_bot @ banned_notice example_config ?grp (new_user (- 100))"
    by blast
  then have h0: "sent (snd (user_check_get example_config ?grp example_bot)) = []"
    by (simp only: calm none append_Nil)
  from t''
  have "dispatch ChatId example_config ?grp [] example_bot =
           (Inr (), (snd (user_check_get example_config ?grp example_bot))
              \<lparr>sent := sent (snd (user_check_get example_config ?grp example_bot)) @
                 [(PInt (effective_chat_id ?grp), str_int (effective_chat_id ?grp))]\<rparr>)"
    by blast
  then have h: "sent (snd (dispatch ChatId example_config ?grp [] example_bot)) =
      [(PInt (- 100), ''-100'')]"
    by (simp add: h0 gid str_int_negative)
  from t'' have "py_int (str_int (effective_chat_id ?grp)) = Inr (effective_chat_id ?grp)"
    by blast
  then have i: "py_int ''-100'' = Inr (- 100)"
    by (simp add: gid str_int_negative)
  from example_wf sender banned a b c d e f g cid fresh h i show ?thesis by simp
qed

section \<open>Claims on text messages\<close>

text \<open>The text handler for a sender who is neither banned nor an admin.\<close>

lemma bot_message_sender:
  assumes wf: "wf_store (database w)"
    and sender: "fst (get_user_by_id (effective_chat_id upd) (database w)) = Inr u0"
    and f: "u0 ''banned'' = Some (PBool False)" "u0 ''admin'' = Some (PBool False)"
      "u0 ''messages_total'' = Some (PInt n)"
    and m: "message upd = Some m"
  shows "\<exists>db' handle.
      refreshed upd u0 ''username'' = Some (PStr handle) \<and>
      bot_message cfg upd w =
        (Inr (),
         w\<lparr>database := db',
           sent := sent w @
             (if n + 1 \<le> user_max_messages cfg
              then map (\<lambda>i. (i, expand_escapes (full_name m @ '' (@'' @ handle @ '') (''
                                @ str_int (effective_chat_id upd) @ '')'' @ newline @ newline
                                @ msg_text m)))
                     (admin_ids (read_users db'))
                   @ [(PInt (effective_chat_id upd), expand_escapes (confirmation_message cfg))]
              else [])\<rparr>) \<and>
      holds (effective_chat_id upd) ((refreshed upd u0)(''messages_total'' \<mapsto> PInt (n + 1))) db' \<and>
      frame (effective_chat_id upd) (database w) db'"
proof -
  let ?cid = "effective_chat_id upd"
  let ?u = "refreshed upd u0"
  from prologue [OF wf sender, of cfg] obtain db1 where
    pro: "user_check_get cfg upd w =
        (Inr ?u, w\<lparr>database := db1, sent := sent w @ banned_notice cfg upd u0\<rparr>)"
    and h: "holds ?cid ?u db1"
    and fr: "frame ?cid (database w) db1"
    by blast
  let ?w1 = "w\<lparr>database := db1, sent := sent w @ banned_notice cfg upd u0\<rparr>"
  from h have h1: "holds ?cid ?u (database ?w1)" by simp
  from h obtain handle where handle: "?u ''username'' = Some (PStr handle)"
    by (auto elim: holds_fields)
  from m have name: "?u ''full_name'' = Some (PStr (full_name m))"
    by (simp add: refreshed_def)
  from f have f': "?u ''banned'' = Some (PBool False)" "?u ''admin'' = Some (PBool False)"
    "?u ''messages_total'' = Some (PInt n)"
    by simp_all
  from bot_message_run [OF pro h1 f' handle name m] obtain db' where
    run: "bot_message cfg upd w =
        (Inr (),
         ?w1\<lparr>database := db',
            sent := sent ?w1 @
              (if n + 1 \<le> user_max_messages cfg
               then map (\<lambda>i. (i, expand_escapes (full_name m @ '' (@'' @ handle @ '') (''
                                     @ str_int ?cid @ '')'' @ newline @ newline @ msg_text m)))
                      (admin_ids (read_users db'))
                    @ [(PInt ?cid, expand_escapes (confirmation_message cfg))]
               else [])\<rparr>)"
    and h': "holds ?cid (?u(''messages_total'' \<mapsto> PInt (n + 1))) db'"
    and fr': "frame ?cid (database ?w1) db'"
    by blast
  from f(1) have quiet: "banned_notice cfg upd u0 = []"
    by (simp add: banned_notice_def)
  from fr fr' have "frame ?cid (database w) db'"
    by (auto intro: frame_trans)
  with run quiet h' handle show ?thesis
    by (intro exI [of _ db'] exI [of _ handle]) simp
qed

lemma stored_field_holds: "holds uid u db \<Longrightarrow> stored_field db uid key = u key"
  by (simp add: holds_def stored_field_def)

lemma get_user_by_id_holds: "holds uid u db \<Longrightarrow> get_user_by_id uid db = (Inr u, db)"
  by (simp add: holds_def get_user_by_id_present)

text \<open>
  C1. A text message from a sender who is neither banned nor an admin, with the counter
  at \<open>n\<close>: the handler returns, the stored counter is \<open>n + 1\<close> whatever the quota, and
  the messages sent are the copies to the admins followed by the confirmation to the
  sender exactly when \<open>n + 1\<close> is at most the quota; beyond the quota nothing is sent.
  The store stays well formed and the sender stays unbanned and no admin, so the same
  holds for the next message, with the counter one higher.
\<close>

theorem quota_counter:
  assumes "wf_store (database w)"
    and "fst (get_user_by_id (effective_chat_id upd) (database w)) = Inr u0"
    and "u0 ''banned'' = Some (PBool False)" "u0 ''admin'' = Some (PBool False)"
    and "u0 ''messages_total'' = Some (PInt n)"
    and "message upd = Some m"
  shows "\<exists>w' copies u'.
      bot_message cfg upd w = (Inr (), w') \<and>
      stored_field (database w') (effective_chat_id upd) ''messages_total'' = Some (PInt (n + 1)) \<and>
      (if n + 1 \<le> user_max_messages cfg
       then sent w' = sent w @ copies @
              [(PInt (effective_chat_id upd), expand_escapes (confirmation_message cfg))] \<and>
            map fst copies = admin_ids (read_users (database w))
       else sent w' = sent w) \<and>
      wf_store (database w') \<and>
      fst (get_user_by_id (effective_chat_id upd) (database w')) = Inr u' \<and>
      u' ''banned'' = Some (PBool False) \<and> u' ''admin'' = Some (PBool False) \<and>
      u' ''messages_total'' = Some (PInt (n + 1))"
proof -
  let ?cid = "effective_chat_id upd"
  let ?u' = "(refreshed upd u0)(''messages_total'' \<mapsto> PInt (n + 1))"
  from bot_message_sender [OF assms, of cfg] obtain db' handle where
    run: "bot_message cfg upd w =
        (Inr (),
         w\<lparr>database := db',
           sent := sent w @
             (if n + 1 \<le> user_max_messages cfg
              then map (\<lambda>i. (i, expand_escapes (full_name m @ '' (@'' @ handle @ '') (''
                                @ str_int ?cid @ '')'' @ newline @ newline @ msg_text m)))
                     (admin_ids (read_users db'))
                   @ [(PInt ?cid, expand_escapes (confirmation_message cfg))]
              else [])\<rparr>)"
    and h: "holds ?cid ?u' db'" and fr: "frame ?cid (database w) db'"
    by blast
  let ?copies = "map (\<lambda>i. (i, expand_escapes (full_name m @ '' (@'' @ handle @ '') (''
                                @ str_int ?cid @ '')'' @ newline @ newline @ msg_text m)))
                     (admin_ids (read_users db'))"
  from fr have admins: "admin_ids (read_users db') = admin_ids (read_users (database w))"
    by (simp add: frame_def)
  from h have wf': "wf_store db'" by (simp add: holds_def)
  have "map fst ?copies = admin_ids (read_users (database w))"
    by (simp add: admins comp_def)
  with run wf' stored_field_holds [OF h, of "''messages_total''"] get_user_by_id_holds [OF h]
    assms(3,4)
  show ?thesis
    by (intro exI [of _ "snd (bot_message cfg upd w)"] exI [of _ ?copies] exI [of _ ?u']) simp
qed

lemma example_sender_found:
  "fst (get_user_by_id (effective_chat_id (update_from 42 ''alice'' ''Alice A'' ''hello''))
         (database example_bot)) = Inr example_sender"
  by (simp add: example_bot_def get_user_by_id_def example_admin_def example_sender_def
      example_banned_def getitem_def update_from_def)

lemma example_admin_ids: "admin_ids (read_users (database example_bot)) = [PInt 1]"
  by (simp add: admin_ids_def example_bot_def example_admin_def example_sender_def
      example_banned_def new_user_def)

theorem quota_counter_witness:
  "wf_store (database example_bot)
   \<and> fst (get_user_by_id 42 (database example_bot)) = Inr example_sender
   \<and> example_sender ''banned'' = Some (PBool False)
   \<and> example_sender ''admin'' = Some (PBool False)
   \<and> example_sender ''messages_total'' = Some (PInt 2)
   \<and> user_max_messages example_config = 3
   \<and> fst (bot_message example_config (update_from 42 ''alice'' ''Alice A'' ''hello'') example_bot) = Inr ()
   \<and> stored_field (database (snd (bot_message example_config
          (update_from 42 ''alice'' ''Alice A'' ''hello'') example_bot))) 42 ''messages_total'' =
        Some (PInt 3)
   \<and> map fst (sent (snd (bot_message example_config
          (update_from 42 ''alice'' ''Alice A'' ''hello'') example_bot))) = [PInt 1, PInt 42]
   \<and> stored_field (database (snd (bot_message example_config
          (update_from 42 ''alice'' ''Alice A'' ''again'')
          (snd (bot_message example_config (update_from 42 ''alice'' ''Alice A'' ''hello'')
             example_bot))))) 42 ''messages_total'' = Some (PInt 4)
   \<and> sent (snd (bot_message example_config (update_from 42 ''alice'' ''Alice A'' ''again'')
          (snd (bot_message example_config (update_from 42 ''alice'' ''Alice A'' ''hello'')
             example_bot)))) =
       sent (snd (bot_message example_config (update_from 42 ''alice'' ''Alice A'' ''hello'')
          example_bot))"
proof -
  let ?upd = "update_from 42 ''alice'' ''Alice A'' ''hello''"
  let ?upd2 = "update_from 42 ''alice'' ''Alice A'' ''again''"
  let ?m = "\<lparr>username = Some ''alice'', full_name = ''Alice A'', msg_text = ''hello''\<rparr>"
  let ?m2 = "\<lparr>username = Some ''alice'', full_name = ''Alice A'', msg_text = ''again''\<rparr>"
  have cid: "effective_chat_id ?upd = 42" "effective_chat_id ?upd2 = 42"
    by (simp_all add: update_from_def)
  have msg: "message ?upd = Some ?m" "message ?upd2 = Some ?m2"
    by (simp_all add: update_from_def)
  have f: "example_sender ''banned'' = Some (PBool False)"
    "example_sender ''admin'' = Some (PBool False)"
    "example_sender ''messages_total'' = Some (PInt 2)"
    by (simp_all add: example_sender_def new_user_def)
  have quota: "user_max_messages example_config = 3"
    by (simp add: example_config_def)
  from quota_counter [OF example_wf example_sender_found f msg(1), of example_config]
  obtain w1 copies u1 where
    first: "bot_message example_config ?upd example_bot = (Inr (), w1)"
      "stored_field (database w1) 42 ''messages_total'' = Some (PInt 3)"
      "sent w1 = sent example_bot @ copies @ [(PInt 42, expand_escapes (confirmation_message example_config))]"
      "map fst copies = admin_ids (read_users (database example_bot))"
      "wf_store (database w1)"
      "fst (get_user_by_id 42 (database w1)) = Inr u1"
      "u1 ''banned'' = Some (PBool False)" "u1 ''admin'' = Some (PBool False)"
      "u1 ''messages_total'' = Some (PInt 3)"
    unfolding cid quota by auto
  from first(6) have sender2: "fst (get_user_by_id (effective_chat_id ?upd2) (database w1)) = Inr u1"
    by (simp add: cid)
  from quota_counter [OF first(5) sender2 first(7,8,9) msg(2), of example_config]
  obtain w2 where
    second: "bot_message example_config ?upd2 w1 = (Inr (), w2)"
      "stored_field (database w2) 42 ''messages_total'' = Some (PInt 4)"
      "sent w2 = sent w1"
    unfolding cid quota by auto
  have recipients: "map fst (sent w1) = [PInt 1, PInt 42]"
    using first(3,4) by (simp add: example_admin_ids) (simp add: example_bot_def)
  from example_wf example_sender_found f quota first(1,2) recipients second show ?thesis
    by (simp add: cid)
qed




section \<open>Claims on an unreadable store\<close>

text \<open>
  C7. When the persistence layer yields nothing, \<open>read_users\<close> returns the empty list.
  Its callers then see a store without profiles: the lookup finds none,
  \<open>get_user_by_id\<close> creates the default profile, and the text handler returns normally
  for an update that carries a message.
\<close>

theorem read_users_unreadable:
  "load_json (database w) = None \<Longrightarrow>
     read_users (database w) = [] \<and>
     find_user uid (read_users (database w)) = Inr None \<and>
     get_user_by_id uid (database w) = (Inr (new_user uid), save_json [new_user uid]) \<and>
     (\<forall>m. message upd = Some m \<longrightarrow> fst (bot_message cfg upd w) = Inr ())"
proof -
  assume "load_json (database w) = None"
  then have empty: "read_users (database w) = []"
    by (simp add: read_users_def)
  then have absent: "\<And>i. find_user i (read_users (database w)) = Inr None"
    by simp
  from get_user_by_id_absent [OF absent] empty
  have created: "\<And>i. get_user_by_id i (database w) = (Inr (new_user i), save_json [new_user i])"
    by simp
  from empty have wf: "wf_store (database w)"
    by (simp add: wf_store_def)
  have relay: "fst (bot_message cfg upd w) = Inr ()" if m: "message upd = Some m" for m
  proof -
    let ?u0 = "new_user (effective_chat_id upd)"
    from created have sender: "fst (get_user_by_id (effective_chat_id upd) (database w)) = Inr ?u0"
      by simp
    have f: "?u0 ''banned'' = Some (PBool False)" "?u0 ''admin'' = Some (PBool False)"
      "?u0 ''messages_total'' = Some (PInt 0)"
      by (simp_all add: new_user_def)
    from bot_message_sender [OF wf sender f m, of cfg] show ?thesis
      by auto
  qed
  from empty absent created relay show ?thesis
    by blast
qed

theorem read_users_unreadable_witness:
  "load_json (database (example_bot\<lparr>database := None\<rparr>)) = None
   \<and> read_users (database (example_bot\<lparr>database := None\<rparr>)) = []
   \<and> get_user_by_id 42 (database (example_bot\<lparr>database := None\<rparr>)) =
       (Inr (new_user 42), save_json [new_user 42])
   \<and> message (update_from 42 ''alice'' ''Alice A'' ''hello'') =
       Some \<lparr>username = Some ''alice'', full_name = ''Alice A'', msg_text = ''hello''\<rparr>
   \<and> fst (bot_message example_config (update_from 42 ''alice'' ''Alice A'' ''hello'')
          (example_bot\<lparr>database := None\<rparr>)) = Inr ()"
proof -
  have h: "load_json (database (example_bot\<lparr>database := None\<rparr>)) = None"
    by (simp add: load_json_def)
  have m: "message (update_from 42 ''alice'' ''Alice A'' ''hello'') =
       Some \<lparr>username = Some ''alice'', full_name = ''Alice A'', msg_text = ''hello''\<rparr>"
    by (simp add: update_from_def)
  from read_users_unreadable [OF h, of 42 "update_from 42 ''alice'' ''Alice A'' ''hello''"
      example_config] h m
  show ?thesis by blast
qed

section \<open>Claims on ban and unban\<close>

text \<open>\<open>/ban\<close> and \<open>/unban\<close> from an admin who is not banned, by the arguments given.\<close>

lemma ban_unban_admin:
  assumes wf: "wf_store (database w)"
    and sender: "fst (get_user_by_id (effective_chat_id upd) (database w)) = Inr u0"
    and f: "u0 ''banned'' = Some (PBool False)" "u0 ''admin'' = Some (PBool True)"
  shows "\<exists>w1.
      user_check_get cfg upd w = (Inr (refreshed upd u0), w1) \<and>
      sent w1 = sent w \<and>
      holds (effective_chat_id upd) (refreshed upd u0) (database w1) \<and>
      frame (effective_chat_id upd) (database w) (database w1) \<and>
      bot_command_ban_unban ban cfg upd [] w = (Inr (), w1) \<and>
      (\<forall>a rest e. py_int a = Inl e \<longrightarrow>
         bot_command_ban_unban ban cfg upd (a # rest) w =
           (Inr (), w1\<lparr>sent := sent w1 @ [(PInt (effective_chat_id upd), expand_escapes e)]\<rparr>)) \<and>
      (\<forall>a rest t. py_int a = Inr t \<longrightarrow>
         (\<exists>p db'.
            fst (get_user_by_id t (database w1)) = Inr p \<and>
            bot_command_ban_unban ban cfg upd (a # rest) w =
              (Inr (),
               w1\<lparr>database := db',
                  sent := sent w1 @
                    [(PInt (effective_chat_id upd),
                      expand_escapes (if ban then ban_confirmation_message cfg
                                      else unban_confirmation_message cfg))]\<rparr>) \<and>
            holds t (p(''banned'' \<mapsto> PBool ban)) db' \<and>
            frame t (database w1) db'))"
proof -
  let ?cid = "effective_chat_id upd"
  let ?u = "refreshed upd u0"
  from prologue [OF wf sender, of cfg] obtain db1 where
    pro: "user_check_get cfg upd w =
        (Inr ?u, w\<lparr>database := db1, sent := sent w @ banned_notice cfg upd u0\<rparr>)"
    and h: "holds ?cid ?u db1"
    and fr: "frame ?cid (database w) db1"
    by blast
  let ?w1 = "w\<lparr>database := db1, sent := sent w @ banned_notice cfg upd u0\<rparr>"
  from h have h1: "holds ?cid ?u (database ?w1)" by simp
  from h have wfu: "wf_user ?u" and i: "?u ''id'' = Some (PInt ?cid)"
    by (simp_all add: holds_def)
  from f have f': "?u ''banned'' = Some (PBool False)" "?u ''admin'' = Some (PBool True)"
    by simp_all
  from f(1) have quiet: "sent ?w1 = sent w"
    by (simp add: banned_notice_def)
  have none: "bot_command_ban_unban ban cfg upd [] w = (Inr (), ?w1)"
    by (rule ban_unban_no_argument [OF pro wfu f'])
  have failure: "bot_command_ban_unban ban cfg upd (a # rest) w =
           (Inr (), ?w1\<lparr>sent := sent ?w1 @ [(PInt ?cid, expand_escapes e)]\<rparr>)"
    if "py_int a = Inl e" for a rest e
    by (rule ban_unban_parse_failure [OF pro wfu i f' that])
  have success: "\<exists>p db'.
            fst (get_user_by_id t (database ?w1)) = Inr p \<and>
            bot_command_ban_unban ban cfg upd (a # rest) w =
              (Inr (),
               ?w1\<lparr>database := db',
                  sent := sent ?w1 @
                    [(PInt ?cid,
                      expand_escapes (if ban then ban_confirmation_message cfg
                                      else unban_confirmation_message cfg))]\<rparr>) \<and>
            holds t (p(''banned'' \<mapsto> PBool ban)) db' \<and>
            frame t (database ?w1) db'"
    if "py_int a = Inr t" for a rest t
    by (rule ban_unban_success [OF pro h1 f' that])
  from fr have fr1: "frame ?cid (database w) (database ?w1)" by simp
  show ?thesis
    apply (rule exI [of _ ?w1])
    apply (intro conjI allI impI)
          apply (rule pro)
         apply (rule quiet)
        apply (rule h1)
       apply (rule fr1)
      apply (rule none)
     apply (erule failure)
    apply (erule success)
    done
qed

lemma py_int_failure:
  "py_int a = Inl e \<Longrightarrow>
     e = ''invalid literal for int() with base 10: '' @ take 200 (py_repr (strip a))"
  by (simp add: py_int_def Let_def invalid_literal_def split: prod.splits option.splits)

lemma frame_lookup:
  "frame t db db' \<Longrightarrow> uid \<noteq> t \<Longrightarrow> find_user uid (read_users db') = find_user uid (read_users db)"
  by (simp add: frame_def)

text \<open>After \<open>/ban\<close> of another id the admin can unban it, which clears the flag.\<close>

lemma ban_then_unban:
  assumes wf: "wf_store (database w)"
    and sender: "fst (get_user_by_id (effective_chat_id upd) (database w)) = Inr u0"
    and f: "u0 ''banned'' = Some (PBool False)" "u0 ''admin'' = Some (PBool True)"
    and a: "py_int a = Inr t" and other: "t \<noteq> effective_chat_id upd"
  shows "stored_field (database (snd (bot_command_ban cfg upd (a # rest) w))) t ''banned'' =
           Some (PBool True) \<and>
         stored_field (database (snd (bot_command_unban cfg upd (a # rest)
             (snd (bot_command_ban cfg upd (a # rest) w))))) t ''banned'' = Some (PBool False)"
proof -
  let ?cid = "effective_chat_id upd"
  let ?u = "refreshed upd u0"
  from ban_unban_admin [OF wf sender f, of cfg True] a obtain w1 p db' where
    h1: "holds ?cid ?u (database w1)"
    and run: "bot_command_ban_unban True cfg upd (a # rest) w =
              (Inr (), w1\<lparr>database := db',
                  sent := sent w1 @ [(PInt ?cid,
                      expand_escapes (if True then ban_confirmation_message cfg
                                      else unban_confirmation_message cfg))]\<rparr>)"
    and hp: "holds t (p(''banned'' \<mapsto> PBool True)) db'"
    and fr: "frame t (database w1) db'"
    by blast
  let ?w2 = "snd (bot_command_ban cfg upd (a # rest) w)"
  from run have db2: "database ?w2 = db'"
    by (simp add: bot_command_ban_def)
  from hp have wf2: "wf_store (database ?w2)"
    by (simp add: holds_def db2)
  from h1 have "find_user ?cid (read_users (database w1)) = Inr (Some ?u)"
    by (simp add: holds_def)
  with frame_lookup [OF fr, of ?cid] other
  have "find_user ?cid (read_users (database ?w2)) = Inr (Some ?u)"
    by (simp add: db2)
  then have sender2: "fst (get_user_by_id ?cid (database ?w2)) = Inr ?u"
    by (simp add: get_user_by_id_present)
  from f have f2: "?u ''banned'' = Some (PBool False)" "?u ''admin'' = Some (PBool True)"
    by simp_all
  from ban_unban_admin [OF wf2 sender2 f2, of cfg False] a obtain w3 q db'' where
    run2: "bot_command_ban_unban False cfg upd (a # rest) ?w2 =
              (Inr (), w3\<lparr>database := db'',
                  sent := sent w3 @ [(PInt ?cid,
                      expand_escapes (if False then ban_confirmation_message cfg
                                      else unban_confirmation_message cfg))]\<rparr>)"
    and hq: "holds t (q(''banned'' \<mapsto> PBool False)) db''"
    by blast
  from run2 have db3: "database (snd (bot_command_unban cfg upd (a # rest) ?w2)) = db''"
    by (simp add: bot_command_unban_def)
  from stored_field_holds [OF hp, of "''banned''"] stored_field_holds [OF hq, of "''banned''"]
  show ?thesis
    by (simp add: db2 db3)
qed

text \<open>
  C4, as the code has it. \<open>/ban\<close> and \<open>/unban\<close> from an admin who is not banned use the
  first argument and ignore the others. With no argument the handler stops after the
  prologue and sends nothing. When the first argument does not parse as an integer, the
  error text goes to the admin (the message of the ValueError, which quotes the stripped
  argument as \<open>repr\<close> writes it, cut after 200 characters, and which passes through the
  sending routine) and the store stays as the prologue left it: the lookup
  of every id but the admin's is as before the command, and the admin's profile has
  only its names refreshed. When it parses, the target profile is the stored or a newly
  created one with the banned flag set as asked, every other lookup is unchanged, and the
  ban or unban confirmation goes to the admin. \<open>/ban\<close> of another id followed by \<open>/unban\<close>
  of it leaves the flag false.
\<close>

theorem ban_unban_first_argument:
  assumes "wf_store (database w)"
    and "fst (get_user_by_id (effective_chat_id upd) (database w)) = Inr u0"
    and "u0 ''banned'' = Some (PBool False)" "u0 ''admin'' = Some (PBool True)"
  shows "sent (snd (user_check_get cfg upd w)) = sent w
     \<and> find_user (effective_chat_id upd) (read_users (database (snd (user_check_get cfg upd w)))) =
         Inr (Some (refreshed upd u0))
     \<and> frame (effective_chat_id upd) (database w) (database (snd (user_check_get cfg upd w)))
     \<and> bot_command_ban_unban ban cfg upd [] w = (Inr (), snd (user_check_get cfg upd w))
     \<and> (\<forall>a rest e. py_int a = Inl e \<longrightarrow>
           e = ''invalid literal for int() with base 10: '' @ take 200 (py_repr (strip a)) \<and>
           bot_command_ban_unban ban cfg upd (a # rest) w =
             (Inr (), (snd (user_check_get cfg upd w))
                \<lparr>sent := sent w @ [(PInt (effective_chat_id upd), expand_escapes e)]\<rparr>))
     \<and> (\<forall>a rest t. py_int a = Inr t \<longrightarrow>
           (\<exists>p db'.
              fst (get_user_by_id t (database (snd (user_check_get cfg upd w)))) = Inr p \<and>
              bot_command_ban_unban ban cfg upd (a # rest) w =
                (Inr (),
                 (snd (user_check_get cfg upd w))
                   \<lparr>database := db',
                    sent := sent w @
                      [(PInt (effective_chat_id upd),
                        expand_escapes (if ban then ban_confirmation_message cfg
                                        else unban_confirmation_message cfg))]\<rparr>) \<and>
              find_user t (read_users db') = Inr (Some (p(''banned'' \<mapsto> PBool ban))) \<and>
              frame t (database (snd (user_check_get cfg upd w))) db'))
     \<and> (\<forall>a rest t. py_int a = Inr t \<and> t \<noteq> effective_chat_id upd \<longrightarrow>
           stored_field (database (snd (bot_command_ban cfg upd (a # rest) w))) t ''banned'' =
             Some (PBool True) \<and>
           stored_field (database (snd (bot_command_unban cfg upd (a # rest)
               (snd (bot_command_ban cfg upd (a # rest) w))))) t ''banned'' = Some (PBool False))"
proof -
  let ?cid = "effective_chat_id upd"
  from ban_unban_admin [OF assms, of cfg ban] obtain w1 where
    pro: "user_check_get cfg upd w = (Inr (refreshed upd u0), w1)"
    and quiet: "sent w1 = sent w"
    and h: "holds ?cid (refreshed upd u0) (database w1)"
    and fr: "frame ?cid (database w) (database w1)"
    and none: "bot_command_ban_unban ban cfg upd [] w = (Inr (), w1)"
    and failure: "\<And>a rest e. py_int a = Inl e \<Longrightarrow>
         bot_command_ban_unban ban cfg upd (a # rest) w =
           (Inr (), w1\<lparr>sent := sent w1 @ [(PInt ?cid, expand_escapes e)]\<rparr>)"
    and success: "\<And>a rest t. py_int a = Inr t \<Longrightarrow>
         (\<exists>p db'.
            fst (get_user_by_id t (database w1)) = Inr p \<and>
            bot_command_ban_unban ban cfg upd (a # rest) w =
              (Inr (),
               w1\<lparr>database := db',
                  sent := sent w1 @
                    [(PInt ?cid,
                      expand_escapes (if ban then ban_confirmation_message cfg
                                      else unban_confirmation_message cfg))]\<rparr>) \<and>
            holds t (p(''banned'' \<mapsto> PBool ban)) db' \<and>
            frame t (database w1) db')"
    by blast
  from pro have w1: "snd (user_check_get cfg upd w) = w1" by simp
  from h have found: "find_user ?cid (read_users (database w1)) = Inr (Some (refreshed upd u0))"
    by (simp add: holds_def)
  have success': "\<exists>p db'.
            fst (get_user_by_id t (database w1)) = Inr p \<and>
            bot_command_ban_unban ban cfg upd (a # rest) w =
              (Inr (),
               w1\<lparr>database := db',
                  sent := sent w @
                    [(PInt ?cid,
                      expand_escapes (if ban then ban_confirmation_message cfg
                                      else unban_confirmation_message cfg))]\<rparr>) \<and>
            find_user t (read_users db') = Inr (Some (p(''banned'' \<mapsto> PBool ban))) \<and>
            frame t (database w1) db'"
    if "py_int a = Inr t" for a rest t
    using success [OF that, of rest] unfolding quiet holds_def by blast
  have trip: "stored_field (database (snd (bot_command_ban cfg upd (a # rest) w))) t ''banned'' =
             Some (PBool True) \<and>
           stored_field (database (snd (bot_command_unban cfg upd (a # rest)
               (snd (bot_command_ban cfg upd (a # rest) w))))) t ''banned'' = Some (PBool False)"
    if "py_int a = Inr t \<and> t \<noteq> ?cid" for a rest t
    using that ban_then_unban [OF assms, of a t cfg rest] by blast
  show ?thesis
    unfolding w1
    apply (intro conjI allI impI)
          apply (rule quiet)
         apply (rule found)
        apply (rule fr)
       apply (rule none)
       apply (erule py_int_failure)
      apply (simp add: failure quiet)
     apply (erule success')
     apply (simp add: trip)
    apply (simp add: trip)
    done
qed

lemma py_int_42: "py_int ''42'' = Inr 42"
  by code_simp

lemma py_int_abc:
  "py_int ''abc'' = Inl (''invalid literal for int() with base 10: '' @ [CHR 0x27] @ ''abc'' @ [CHR 0x27])"
  by code_simp

lemma py_int_apostrophe:
  "py_int [CHR ''a'', CHR 0x27, CHR ''b''] =
     Inl (''invalid literal for int() with base 10: '' @ [CHR 0x22, CHR ''a'', CHR 0x27, CHR ''b'', CHR 0x22])"
  by code_simp

text \<open>
  The error text on further arguments: a backslash is doubled, an apostrophe beside a
  double quote is escaped, a no-break space inside the literal is written in
  hexadecimal, and a literal of 250 characters is cut so that the text has 240.
\<close>

lemma invalid_literal_examples:
  "py_int [CHR ''a'', CHR 0x5C, CHR ''b''] =
     Inl (''invalid literal for int() with base 10: '' @
          [CHR 0x27, CHR ''a'', CHR 0x5C, CHR 0x5C, CHR ''b'', CHR 0x27])"
  "py_int [CHR ''a'', CHR 0x27, CHR 0x22] =
     Inl (''invalid literal for int() with base 10: '' @
          [CHR 0x27, CHR ''a'', CHR 0x5C, CHR 0x27, CHR 0x22, CHR 0x27])"
  "py_int [CHR ''1'', CHR 0xA0, CHR ''2''] =
     Inl (''invalid literal for int() with base 10: '' @
          [CHR 0x27, CHR ''1'', CHR 0x5C, CHR ''x'', CHR ''a'', CHR ''0'', CHR ''2'', CHR 0x27])"
  "py_int [CHR 0xA0, CHR ''7'', CHR 0x85] = Inr 7"
  "py_int [] = Inl (''invalid literal for int() with base 10: '' @ [CHR 0x27, CHR 0x27])"
  "map_sum length id (py_int (replicate 250 CHR ''x'')) = Inl 240"
  by code_simp+

lemma expand_escapes_abc:
  "expand_escapes (''invalid literal for int() with base 10: '' @ [CHR 0x27] @ ''abc'' @ [CHR 0x27]) =
     ''invalid literal for int() with base 10: '' @ [CHR 0x27] @ ''abc'' @ [CHR 0x27]"
  by code_simp

lemma expand_escapes_apostrophe:
  "expand_escapes (''invalid literal for int() with base 10: '' @
       [CHR 0x22, CHR ''a'', CHR 0x27, CHR ''b'', CHR 0x22]) =
     ''invalid literal for int() with base 10: '' @ [CHR 0x22, CHR ''a'', CHR 0x27, CHR ''b'', CHR 0x22]"
  by code_simp

lemma py_int_backslash:
  "py_int [CHR ''a'', CHR 0x5C, CHR ''n'', CHR ''b''] =
     Inl (''invalid literal for int() with base 10: '' @
          [CHR 0x27, CHR ''a'', CHR 0x5C, CHR 0x5C, CHR ''n'', CHR ''b'', CHR 0x27])"
  by code_simp

text \<open>
  The sending routine then reads the second backslash and the letter after it as the
  escape of a line feed.
\<close>

lemma expand_escapes_backslash:
  "expand_escapes (''invalid literal for int() with base 10: '' @
          [CHR 0x27, CHR ''a'', CHR 0x5C, CHR 0x5C, CHR ''n'', CHR ''b'', CHR 0x27]) =
     ''invalid literal for int() with base 10: '' @
          [CHR 0x27, CHR ''a'', CHR 0x5C, CHR 0x0A, CHR ''b'', CHR 0x27]"
  by code_simp

lemma py_int_long:
  "py_int (replicate 250 CHR ''x'') =
     Inl (''invalid literal for int() with base 10: '' @ CHR 0x27 # replicate 199 CHR ''x'')"
  by code_simp

lemma expand_escapes_long:
  "expand_escapes (''invalid literal for int() with base 10: '' @ CHR 0x27 # replicate 199 CHR ''x'') =
     ''invalid literal for int() with base 10: '' @ CHR 0x27 # replicate 199 CHR ''x''"
  by code_simp

lemma example_admin_found:
  "fst (get_user_by_id (effective_chat_id (update_from 1 ''root'' ''Root'' txt))
         (database example_bot)) = Inr example_admin"
  by (simp add: example_bot_def get_user_by_id_def example_admin_def example_sender_def
      example_banned_def getitem_def update_from_def)

theorem ban_unban_first_argument_witness:
  "wf_store (database example_bot)
   \<and> fst (get_user_by_id 1 (database example_bot)) = Inr example_admin
   \<and> example_admin ''banned'' = Some (PBool False)
   \<and> example_admin ''admin'' = Some (PBool True)
   \<and> py_int ''abc'' =
       Inl (''invalid literal for int() with base 10: '' @ [CHR 0x27] @ ''abc'' @ [CHR 0x27])
   \<and> py_int ''42'' = Inr 42
   \<and> bot_command_ban_unban True example_config (update_from 1 ''root'' ''Root'' ''/ban abc'')
        [''abc''] example_bot =
       (Inr (), (snd (user_check_get example_config (update_from 1 ''root'' ''Root'' ''/ban abc'')
                   example_bot))
          \<lparr>sent := [(PInt 1, ''invalid literal for int() with base 10: '' @ [CHR 0x27] @ ''abc''
                              @ [CHR 0x27])]\<rparr>)
   \<and> sent (snd (bot_command_ban_unban True example_config
          (update_from 1 ''root'' ''Root'' ''/ban abc'') [[CHR ''a'', CHR 0x27, CHR ''b'']]
          example_bot)) =
       [(PInt 1, ''invalid literal for int() with base 10: '' @
                 [CHR 0x22, CHR ''a'', CHR 0x27, CHR ''b'', CHR 0x22])]
   \<and> sent (snd (bot_command_ban_unban False example_config
          (update_from 1 ''root'' ''Root'' ''/ban abc'')
          [[CHR ''a'', CHR 0x5C, CHR ''n'', CHR ''b''], ''7''] example_bot)) =
       [(PInt 1, ''invalid literal for int() with base 10: '' @
                 [CHR 0x27, CHR ''a'', CHR 0x5C, CHR 0x0A, CHR ''b'', CHR 0x27])]
   \<and> sent (snd (bot_command_ban_unban True example_config
          (update_from 1 ''root'' ''Root'' ''/ban abc'') [replicate 250 CHR ''x''] example_bot)) =
       [(PInt 1, ''invalid literal for int() with base 10: '' @ CHR 0x27 # replicate 199 CHR ''x'')]
   \<and> stored_field (database (snd (user_check_get example_config
          (update_from 1 ''root'' ''Root'' ''/ban abc'') example_bot))) 42 ''banned'' =
       stored_field (database example_bot) 42 ''banned''
   \<and> stored_field (database (snd (bot_command_ban example_config
          (update_from 1 ''root'' ''Root'' ''/ban 42'') [''42''] example_bot))) 42 ''banned'' =
       Some (PBool True)
   \<and> stored_field (database (snd (bot_command_unban example_config
          (update_from 1 ''root'' ''Root'' ''/ban 42'') [''42'']
          (snd (bot_command_ban example_config (update_from 1 ''root'' ''Root'' ''/ban 42'')
             [''42''] example_bot))))) 42 ''banned'' = Some (PBool False)"
proof -
  let ?upd = "update_from 1 ''root'' ''Root'' ''/ban abc''"
  let ?upd2 = "update_from 1 ''root'' ''Root'' ''/ban 42''"
  let ?abc = "''invalid literal for int() with base 10: '' @ [CHR 0x27] @ ''abc'' @ [CHR 0x27]"
  let ?ab = "''invalid literal for int() with base 10: '' @
      [CHR 0x22, CHR ''a'', CHR 0x27, CHR ''b'', CHR 0x22]"
  have cid: "effective_chat_id ?upd = 1" "effective_chat_id ?upd2 = 1"
    by (simp_all add: update_from_def)
  have f: "example_admin ''banned'' = Some (PBool False)"
    "example_admin ''admin'' = Some (PBool True)"
    by (simp_all add: example_admin_def new_user_def)
  have none: "sent example_bot = []"
    by (simp add: example_bot_def)
  note t1 = ban_unban_first_argument [OF example_wf example_admin_found [of "''/ban abc''"] f,
      where cfg = example_config and ban = True]
  note t2 = ban_unban_first_argument [OF example_wf example_admin_found [of "''/ban 42''"] f,
      where cfg = example_config and ban = True]
  from t1 py_int_abc have
    "bot_command_ban_unban True example_config ?upd [''abc''] example_bot =
       (Inr (), (snd (user_check_get example_config ?upd example_bot))
          \<lparr>sent := sent example_bot @ [(PInt 1, expand_escapes ?abc)]\<rparr>)"
    unfolding cid by blast
  then have failure:
    "bot_command_ban_unban True example_config ?upd [''abc''] example_bot =
       (Inr (), (snd (user_check_get example_config ?upd example_bot))\<lparr>sent := [(PInt 1, ?abc)]\<rparr>)"
    by (simp only: expand_escapes_abc none append_Nil)
  from t1 py_int_apostrophe have
    "bot_command_ban_unban True example_config ?upd [[CHR ''a'', CHR 0x27, CHR ''b'']] example_bot =
       (Inr (), (snd (user_check_get example_config ?upd example_bot))
          \<lparr>sent := sent example_bot @ [(PInt 1, expand_escapes ?ab)]\<rparr>)"
    unfolding cid by blast
  then have
    "bot_command_ban_unban True example_config ?upd [[CHR ''a'', CHR 0x27, CHR ''b'']] example_bot =
       (Inr (), (snd (user_check_get example_config ?upd example_bot))\<lparr>sent := [(PInt 1, ?ab)]\<rparr>)"
    by (simp only: expand_escapes_apostrophe none append_Nil)
  then have quoted:
    "sent (snd (bot_command_ban_unban True example_config ?upd [[CHR ''a'', CHR 0x27, CHR ''b'']]
        example_bot)) = [(PInt 1, ?ab)]"
    by simp
  let ?bs = "''invalid literal for int() with base 10: '' @
          [CHR 0x27, CHR ''a'', CHR 0x5C, CHR 0x5C, CHR ''n'', CHR ''b'', CHR 0x27]"
  let ?bs' = "''invalid literal for int() with base 10: '' @
          [CHR 0x27, CHR ''a'', CHR 0x5C, CHR 0x0A, CHR ''b'', CHR 0x27]"
  let ?long = "''invalid literal for int() with base 10: '' @ CHR 0x27 # replicate 199 CHR ''x''"
  note t3 = ban_unban_first_argument [OF example_wf example_admin_found [of "''/ban abc''"] f,
      where cfg = example_config and ban = False]
  from t3 py_int_backslash have
    "bot_command_ban_unban False example_config ?upd [[CHR ''a'', CHR 0x5C, CHR ''n'', CHR ''b''], ''7'']
        example_bot =
       (Inr (), (snd (user_check_get example_config ?upd example_bot))
          \<lparr>sent := sent example_bot @ [(PInt 1, expand_escapes ?bs)]\<rparr>)"
    unfolding cid by blast
  then have
    "bot_command_ban_unban False example_config ?upd [[CHR ''a'', CHR 0x5C, CHR ''n'', CHR ''b''], ''7'']
        example_bot =
       (Inr (), (snd (user_check_get example_config ?upd example_bot))\<lparr>sent := [(PInt 1, ?bs')]\<rparr>)"
    by (simp only: expand_escapes_backslash none append_Nil)
  then have escaped:
    "sent (snd (bot_command_ban_unban False example_config ?upd
        [[CHR ''a'', CHR 0x5C, CHR ''n'', CHR ''b''], ''7''] example_bot)) = [(PInt 1, ?bs')]"
    by simp
  from t1 py_int_long have
    "bot_command_ban_unban True example_config ?upd [replicate 250 CHR ''x''] example_bot =
       (Inr (), (snd (user_check_get example_config ?upd example_bot))
          \<lparr>sent := sent example_bot @ [(PInt 1, expand_escapes ?long)]\<rparr>)"
    unfolding cid by blast
  then have
    "bot_command_ban_unban True example_config ?upd [replicate 250 CHR ''x''] example_bot =
       (Inr (), (snd (user_check_get example_config ?upd example_bot))\<lparr>sent := [(PInt 1, ?long)]\<rparr>)"
    by (simp only: expand_escapes_long none append_Nil)
  then have cut:
    "sent (snd (bot_command_ban_unban True example_config ?upd [replicate 250 CHR ''x'']
        example_bot)) = [(PInt 1, ?long)]"
    by simp
  from t1 have "frame 1 (database example_bot)
      (database (snd (user_check_get example_config ?upd example_bot)))"
    unfolding cid by blast
  from frame_lookup [OF this, of 42] have unchanged:
    "stored_field (database (snd (user_check_get example_config ?upd example_bot))) 42 ''banned'' =
       stored_field (database example_bot) 42 ''banned''"
    by (simp add: stored_field_def)
  from t2 py_int_42 have trip:
    "stored_field (database (snd (bot_command_ban example_config ?upd2 [''42''] example_bot)))
        42 ''banned'' = Some (PBool True) \<and>
     stored_field (database (snd (bot_command_unban example_config ?upd2 [''42'']
          (snd (bot_command_ban example_config ?upd2 [''42''] example_bot))))) 42 ''banned'' =
       Some (PBool False)"
    unfolding cid by force
  have sender: "fst (get_user_by_id 1 (database example_bot)) = Inr example_admin"
    using example_admin_found [of "''x''"] by (simp add: update_from_def)
  show ?thesis
    apply (intro conjI)
                apply (rule example_wf)
               apply (rule sender)
              apply (rule f(1))
             apply (rule f(2))
            apply (rule py_int_abc)
           apply (rule py_int_42)
          apply (rule failure)
         apply (rule quoted)
        apply (rule escaped)
       apply (rule cut)
      apply (rule unchanged)
     apply (rule trip [THEN conjunct1])
    apply (rule trip [THEN conjunct2])
    done
qed

lemmas example_defs =
  example_bot_def example_admin_def example_sender_def example_banned_def example_config_def
  update_from_def new_user_def

lemmas run_defs =
  user_check_get_def get_user_by_id_def create_user_def save_user_def save_json_def
  read_users_def load_json_def refresh_def users_handler_def act_bind_def
  send_safe_def logging_warning_user_def name_username_id_def
  getitem_def Let_def stored_field_def

theorem ban_two_arguments_counterexample:
  "length [''42'', ''43''] \<noteq> 1 \<and>
   stored_field (database example_bot) 42 ''banned'' = Some (PBool False) \<and>
   sent (snd (bot_command_ban example_config (update_from 1 ''root'' ''Root'' ''/ban 42 43'')
                [''42'', ''43''] example_bot)) = [(PInt 1, expand_escapes ''Banned'')] \<and>
   stored_field (database (snd (bot_command_ban example_config
                (update_from 1 ''root'' ''Root'' ''/ban 42 43'') [''42'', ''43''] example_bot)))
     42 ''banned'' = Some (PBool True) \<and>
   length ([] :: string list) \<noteq> 1 \<and>
   sent (snd (bot_command_ban example_config (update_from 1 ''root'' ''Root'' ''/ban'') []
                example_bot)) = []"
  by (simp add: bot_command_ban_def bot_command_ban_unban_def run_defs example_defs py_int_42)

section \<open>Claims on the supervisor loop and the restart notice\<close>

lemma restart_run:
  assumes pro: "user_check_get cfg upd w = (Inr u, w1)"
    and wf: "wf_user u" and i: "u ''id'' = Some (PInt uid)"
    and f: "u ''banned'' = Some (PBool False)" "u ''admin'' = Some (PBool True)"
  shows "bot_command_restart cfg upd w =
           (Inr (), w1\<lparr>sent := sent w1 @ [(PInt uid, expand_escapes (restart_message_start cfg))],
                        restart_requested_flag := True,
                        event_loop_stopped := True,
                        restart_threads := restart_threads w1 @ [u]\<rparr>)"
  using wf f i
  by (simp add: bot_command_restart_def act_bind_user_check_get [OF pro] getitem_def)

lemma restart_admin:
  assumes wf: "wf_store (database w)"
    and sender: "fst (get_user_by_id (effective_chat_id upd) (database w)) = Inr u0"
    and f: "u0 ''banned'' = Some (PBool False)" "u0 ''admin'' = Some (PBool True)"
  shows "fst (bot_command_restart cfg upd w) = Inr () \<and>
         restart_requested_flag (snd (bot_command_restart cfg upd w)) \<and>
         event_loop_stopped (snd (bot_command_restart cfg upd w)) \<and>
         sent (snd (bot_command_restart cfg upd w)) =
           sent w @ [(PInt (effective_chat_id upd), expand_escapes (restart_message_start cfg))] \<and>
         restart_threads (snd (bot_command_restart cfg upd w)) =
           restart_threads w @ [refreshed upd u0]"
proof -
  let ?cid = "effective_chat_id upd"
  let ?u = "refreshed upd u0"
  from prologue [OF wf sender, of cfg] obtain db1 where
    pro: "user_check_get cfg upd w =
        (Inr ?u, w\<lparr>database := db1, sent := sent w @ banned_notice cfg upd u0\<rparr>)"
    and h: "holds ?cid ?u db1"
    by blast
  from h have wfu: "wf_user ?u" and i: "?u ''id'' = Some (PInt ?cid)"
    by (simp_all add: holds_def)
  from f have f': "?u ''banned'' = Some (PBool False)" "?u ''admin'' = Some (PBool True)"
    by simp_all
  from f(1) have quiet: "banned_notice cfg upd u0 = []"
    by (simp add: banned_notice_def)
  from restart_run [OF pro wfu i f'] quiet show ?thesis by simp
qed

lemma pass_restart_requested:
  assumes "restart_requested run" "ending run \<noteq> KeyboardInterrupt"
  shows "pass flag run =
    (Connect #
       (case ending run of
          Error e \<Rightarrow> if contains ''Event loop is closed'' e then []
                     else [LogError ''Telegram bot error!'']
        | _ \<Rightarrow> []) @ [LogWarning ''Restarting bot polling''],
     Some False)"
  using assms
  by (cases "ending run") (simp_all add: pass_def wait_and_restart_def prepend_def)

lemma pass_generic_error:
  assumes "\<not> flag" "\<not> restart_requested run" "ending run = Error e"
    "\<not> contains ''Event loop is closed'' e"
  shows "pass flag run =
    (if sleep_interrupted run
     then ([Connect, LogError ''Telegram bot error!'',
            LogWarning ''Restarting bot polling after 10 seconds'',
            LogWarning ''KeyboardInterrupt @ bot_start''], None)
     else ([Connect, LogError ''Telegram bot error!'',
            LogWarning ''Restarting bot polling after 10 seconds'',
            Sleep RESTART_ON_ERROR_DELAY,
            LogWarning ''Restarting bot polling''], Some False))"
  using assms by (simp add: pass_def wait_and_restart_def prepend_def)

lemma pass_interrupt:
  assumes "ending run = KeyboardInterrupt"
  shows "pass flag run = ([Connect, LogWarning ''KeyboardInterrupt @ bot_start''], None)"
  using assms by (simp add: pass_def prepend_def)

lemma pass_connects: "\<exists>events r. pass flag run = (Connect # events, r)"
  by (simp add: pass_def prepend_def Let_def)

lemma start_bot_connects: "hd (fst (start_bot flag (run # runs))) = Connect"
proof -
  from pass_connects [of flag run] obtain events r where
    p: "pass flag run = (Connect # events, r)" by blast
  then show ?thesis
    by (cases r) (simp_all add: prepend_def)
qed

lemma start_bot_retries:
  "list_all generic_error runs \<Longrightarrow>
     start_bot False runs =
       (concat (map (\<lambda>_. [Connect, LogError ''Telegram bot error!'',
                            LogWarning ''Restarting bot polling after 10 seconds'',
                            Sleep RESTART_ON_ERROR_DELAY,
                            LogWarning ''Restarting bot polling'']) runs),
        Some False)"
proof (induction runs)
  case Nil
  then show ?case by simp
next
  case (Cons run runs)
  from Cons.prems have g: "generic_error run" and rest: "list_all generic_error runs"
    by simp_all
  from g obtain e where e: "ending run = Error e" "\<not> contains ''Event loop is closed'' e"
    "\<not> restart_requested run" "\<not> sleep_interrupted run"
    by (auto simp: generic_error_def split: ending.splits)
  from pass_generic_error [of False run e] e
  have "pass False run =
      ([Connect, LogError ''Telegram bot error!'',
        LogWarning ''Restarting bot polling after 10 seconds'',
        Sleep RESTART_ON_ERROR_DELAY,
        LogWarning ''Restarting bot polling''], Some False)"
    by simp
  with Cons.IH [OF rest] show ?case
    by (simp add: prepend_def)
qed

text \<open>
  C5. A pass of the supervisor loop in which \<open>/restart\<close> set the flag and the \<open>try\<close>
  block did not end in KeyboardInterrupt is followed by no sleep: the loop logs the
  restart, clears the flag and enters the next pass, which starts by connecting; the
  error is logged only when it is not the closed event loop. A pass that ends in an
  error other than the closed event loop, with the flag clear, logs the error, sleeps
  RESTART_ON_ERROR_DELAY seconds and goes on with the flag clear; a list of such passes
  of any length is run to its end, each pass with one connect, and the loop is still
  running. KeyboardInterrupt in the \<open>try\<close> block or during the sleep leaves the loop, and no
  later pass is run. \<open>/restart\<close> from an admin who is not banned sets the flag and stops
  the event loop.
\<close>

theorem supervisor_loop:
  "(restart_requested run \<and> ending run \<noteq> KeyboardInterrupt \<longrightarrow>
      pass flag run =
        (Connect #
           (case ending run of
              Error e \<Rightarrow> if contains ''Event loop is closed'' e then []
                         else [LogError ''Telegram bot error!'']
            | _ \<Rightarrow> []) @ [LogWarning ''Restarting bot polling''],
         Some False) \<and>
      start_bot flag (run # runs) = prepend (fst (pass flag run)) (start_bot False runs) \<and>
      (\<forall>next rest. runs = next # rest \<longrightarrow> hd (fst (start_bot False runs)) = Connect))
   \<and> (\<not> flag \<and> \<not> restart_requested run \<and> ending run = Error e \<and>
       \<not> contains ''Event loop is closed'' e \<and> \<not> sleep_interrupted run \<longrightarrow>
      pass flag run =
        ([Connect, LogError ''Telegram bot error!'',
          LogWarning ''Restarting bot polling after 10 seconds'',
          Sleep RESTART_ON_ERROR_DELAY,
          LogWarning ''Restarting bot polling''], Some False) \<and>
      start_bot flag (run # runs) = prepend (fst (pass flag run)) (start_bot False runs))
   \<and> (list_all generic_error runs \<longrightarrow>
      snd (start_bot False runs) = Some False \<and>
      length (filter (\<lambda>ev. ev = Connect) (fst (start_bot False runs))) = length runs \<and>
      length (filter (\<lambda>ev. ev = Sleep RESTART_ON_ERROR_DELAY) (fst (start_bot False runs))) =
        length runs)
   \<and> (ending run = KeyboardInterrupt \<or>
       (\<not> flag \<and> \<not> restart_requested run \<and> ending run = Error e \<and>
        \<not> contains ''Event loop is closed'' e \<and> sleep_interrupted run) \<longrightarrow>
      snd (pass flag run) = None \<and>
      start_bot flag (run # runs) =
        (fst (pass flag run) @ [LogWarning ''Telegram bot stopped''], None) \<and>
      length (filter (\<lambda>ev. ev = Connect) (fst (start_bot flag (run # runs)))) = 1)
   \<and> (wf_store (database w) \<and>
       fst (get_user_by_id (effective_chat_id upd) (database w)) = Inr u0 \<and>
       u0 ''banned'' = Some (PBool False) \<and> u0 ''admin'' = Some (PBool True) \<longrightarrow>
      restart_requested_flag (snd (bot_command_restart cfg upd w)) \<and>
      event_loop_stopped (snd (bot_command_restart cfg upd w)))"
proof (intro conjI impI)
  assume a: "restart_requested run \<and> ending run \<noteq> KeyboardInterrupt"
  then show p: "pass flag run =
        (Connect #
           (case ending run of
              Error e \<Rightarrow> if contains ''Event loop is closed'' e then []
                         else [LogError ''Telegram bot error!'']
            | _ \<Rightarrow> []) @ [LogWarning ''Restarting bot polling''],
         Some False)"
    by (simp add: pass_restart_requested)
  then show "start_bot flag (run # runs) = prepend (fst (pass flag run)) (start_bot False runs)"
    by simp
  show "\<forall>next rest. runs = next # rest \<longrightarrow> hd (fst (start_bot False runs)) = Connect"
    using start_bot_connects by blast
next
  assume a: "\<not> flag \<and> \<not> restart_requested run \<and> ending run = Error e \<and>
       \<not> contains ''Event loop is closed'' e \<and> \<not> sleep_interrupted run"
  with pass_generic_error [of flag run e]
  show p: "pass flag run =
        ([Connect, LogError ''Telegram bot error!'',
          LogWarning ''Restarting bot polling after 10 seconds'',
          Sleep RESTART_ON_ERROR_DELAY,
          LogWarning ''Restarting bot polling''], Some False)"
    by simp
  then show "start_bot flag (run # runs) = prepend (fst (pass flag run)) (start_bot False runs)"
    by simp
next
  assume a: "list_all generic_error runs"
  note r = start_bot_retries [OF a]
  from r show "snd (start_bot False runs) = Some False" by simp
  from r show "length (filter (\<lambda>ev. ev = Connect) (fst (start_bot False runs))) = length runs"
    by (simp add: filter_concat comp_def length_concat sum_list_triv)
  from r show "length (filter (\<lambda>ev. ev = Sleep RESTART_ON_ERROR_DELAY)
      (fst (start_bot False runs))) = length runs"
    by (simp add: filter_concat comp_def length_concat sum_list_triv)
next
  assume a: "ending run = KeyboardInterrupt \<or>
       (\<not> flag \<and> \<not> restart_requested run \<and> ending run = Error e \<and>
        \<not> contains ''Event loop is closed'' e \<and> sleep_interrupted run)"
  then have p: "pass flag run = ([Connect, LogWarning ''KeyboardInterrupt @ bot_start''], None) \<or>
      pass flag run = ([Connect, LogError ''Telegram bot error!'',
            LogWarning ''Restarting bot polling after 10 seconds'',
            LogWarning ''KeyboardInterrupt @ bot_start''], None)"
    using pass_interrupt [of run flag] pass_generic_error [of flag run e] by auto
  then show "snd (pass flag run) = None" by auto
  from p show "start_bot flag (run # runs) =
        (fst (pass flag run) @ [LogWarning ''Telegram bot stopped''], None)"
    by auto
  from p show "length (filter (\<lambda>ev. ev = Connect) (fst (start_bot flag (run # runs)))) = 1"
    by auto
next
  assume a: "wf_store (database w) \<and>
       fst (get_user_by_id (effective_chat_id upd) (database w)) = Inr u0 \<and>
       u0 ''banned'' = Some (PBool False) \<and> u0 ''admin'' = Some (PBool True)"
  with restart_admin [of w upd u0 cfg]
  show "restart_requested_flag (snd (bot_command_restart cfg upd w))"
    and "event_loop_stopped (snd (bot_command_restart cfg upd w))"
    by simp_all
qed

lemma not_closed_loop: "\<not> contains ''Event loop is closed'' ''Connection reset''"
  by simp

theorem supervisor_loop_witness:
  "restart_requested example_restart \<and> ending example_restart \<noteq> KeyboardInterrupt
   \<and> pass False example_restart = ([Connect, LogWarning ''Restarting bot polling''], Some False)
   \<and> hd (fst (start_bot False [example_error])) = Connect
   \<and> \<not> restart_requested example_error \<and> ending example_error = Error ''Connection reset''
   \<and> \<not> contains ''Event loop is closed'' ''Connection reset'' \<and> \<not> sleep_interrupted example_error
   \<and> pass False example_error =
        ([Connect, LogError ''Telegram bot error!'',
          LogWarning ''Restarting bot polling after 10 seconds'',
          Sleep RESTART_ON_ERROR_DELAY,
          LogWarning ''Restarting bot polling''], Some False)
   \<and> list_all generic_error [example_error, example_error, example_error]
   \<and> snd (start_bot False [example_error, example_error, example_error]) = Some False
   \<and> length (filter (\<lambda>ev. ev = Connect)
        (fst (start_bot False [example_error, example_error, example_error]))) = 3
   \<and> ending example_interrupt = KeyboardInterrupt
   \<and> start_bot False [example_interrupt, example_error] =
        ([Connect, LogWarning ''KeyboardInterrupt @ bot_start'',
          LogWarning ''Telegram bot stopped''], None)
   \<and> restart_requested_flag (snd (bot_command_restart example_config
        (update_from 1 ''root'' ''Root'' ''/restart'') example_bot))"
proof -
  have r: "restart_requested example_restart \<and> ending example_restart \<noteq> KeyboardInterrupt"
    "ending example_restart = Error ''Event loop is closed''"
    by (simp_all add: example_restart_def)
  have closed: "contains ''Event loop is closed'' ''Event loop is closed''"
    by simp
  have e: "\<not> False \<and> \<not> restart_requested example_error \<and>
      ending example_error = Error ''Connection reset'' \<and>
      \<not> contains ''Event loop is closed'' ''Connection reset'' \<and>
      \<not> sleep_interrupted example_error"
    using not_closed_loop by (simp add: example_error_def)
  have g: "list_all generic_error [example_error, example_error, example_error]"
    using not_closed_loop by (simp add: generic_error_def example_error_def)
  have k: "ending example_interrupt = KeyboardInterrupt"
    by (simp add: example_interrupt_def)
  have f: "example_admin ''banned'' = Some (PBool False)"
    "example_admin ''admin'' = Some (PBool True)"
    by (simp_all add: example_admin_def new_user_def)
  from supervisor_loop [where run = example_restart and flag = False and runs = "[example_error]"] r closed
  have a1: "pass False example_restart = ([Connect, LogWarning ''Restarting bot polling''], Some False)"
    and a2: "hd (fst (start_bot False [example_error])) = Connect"
    by simp_all
  from supervisor_loop [where run = example_error and flag = False and e = "''Connection reset''"] e
  have b1: "pass False example_error =
        ([Connect, LogError ''Telegram bot error!'',
          LogWarning ''Restarting bot polling after 10 seconds'',
          Sleep RESTART_ON_ERROR_DELAY,
          LogWarning ''Restarting bot polling''], Some False)"
    by blast
  from supervisor_loop [where runs = "[example_error, example_error, example_error]"] g
  have c1: "snd (start_bot False [example_error, example_error, example_error]) = Some False"
    and c2: "length (filter (\<lambda>ev. ev = Connect)
        (fst (start_bot False [example_error, example_error, example_error]))) = 3"
    by simp_all
  from supervisor_loop [where run = example_interrupt and flag = False and runs = "[example_error]"] k
  have "start_bot False [example_interrupt, example_error] =
        (fst (pass False example_interrupt) @ [LogWarning ''Telegram bot stopped''], None)"
    by blast
  then have d1: "start_bot False [example_interrupt, example_error] =
        ([Connect, LogWarning ''KeyboardInterrupt @ bot_start'',
          LogWarning ''Telegram bot stopped''], None)"
    by (simp add: pass_def prepend_def k)
  from supervisor_loop [where w = example_bot and upd = "update_from 1 ''root'' ''Root'' ''/restart''"
      and ?u0.0 = example_admin and cfg = example_config] example_wf example_admin_found f
  have h1: "restart_requested_flag (snd (bot_command_restart example_config
        (update_from 1 ''root'' ''Root'' ''/restart'') example_bot))"
    by blast
  from r(1) e g k a1 a2 b1 c1 c2 d1 h1 show ?thesis
    by simp
qed

text \<open>
  C9, where the code departs from it. The thread that sends the notice after a restart
  replaces only the line feed escape, so a tab escape in \<open>restart_message_done\<close> goes out
  as the two characters backslash and t, while the same template sent through
  \<open>_send_safe\<close> would carry a tab.
\<close>

theorem restart_done_notice_keeps_tab_escape:
  "restart_message_done example_config = ''Restarted'' @ backslash_t @ ''ok'' @ backslash_n
   \<and> map (\<lambda>u. send_message_after_restart example_config u [True, False])
        (restart_threads (snd (bot_command_restart example_config
           (update_from 1 ''root'' ''Root'' ''/restart'') example_bot))) =
       [Some [(PInt 1, ''Restarted'' @ backslash_t @ ''ok'' @ newline)]]
   \<and> sent (snd (send_safe (PInt 1) (restart_message_done example_config) example_bot)) =
       [(PInt 1, ''Restarted'' @ tab @ ''ok'' @ newline)]"
proof -
  have a: "restart_message_done example_config = ''Restarted'' @ backslash_t @ ''ok'' @ backslash_n"
    by (simp add: example_config_def)
  have b: "replace (''Restarted'' @ backslash_t @ ''ok'' @ backslash_n) backslash_n newline =
      ''Restarted'' @ backslash_t @ ''ok'' @ newline"
    by code_simp
  have c: "expand_escapes (''Restarted'' @ backslash_t @ ''ok'' @ backslash_n) =
      ''Restarted'' @ tab @ ''ok'' @ newline"
    by code_simp
  have f: "example_admin ''banned'' = Some (PBool False)"
    "example_admin ''admin'' = Some (PBool True)"
    by (simp_all add: example_admin_def new_user_def)
  from restart_admin [OF example_wf example_admin_found [of "''/restart''"] f, of example_config]
  have t: "restart_threads (snd (bot_command_restart example_config
           (update_from 1 ''root'' ''Root'' ''/restart'') example_bot)) =
       [refreshed (update_from 1 ''root'' ''Root'' ''/restart'') example_admin]"
    by (simp add: example_bot_def)
  have i: "refreshed (update_from 1 ''root'' ''Root'' ''/restart'') example_admin ''id'' = Some (PInt 1)"
    by (simp add: example_admin_def new_user_def)
  show ?thesis
    unfolding t
    by (simp add: a b [simplified] c [simplified] i getitem_def send_safe_apply)
       (simp add: example_bot_def)
qed

end
